theory Spec2Isabelle
  imports Main "HOL-Library.Word"
begin

unbundle bit_operations_syntax

section \<open>TokenStream: a shallow embedding of the Writer and the Reader\<close>

text \<open>
  The development follows \<^verbatim>\<open>Writer.cpp\<close>, \<^verbatim>\<open>Writer.h\<close>, \<^verbatim>\<open>Reader.cpp\<close>,
  \<^verbatim>\<open>Reader.h\<close> and \<^verbatim>\<open>EndianTypes.h\<close>. Conventions of the model:
  \<^item> \<^verbatim>\<open>uint8_t\<close>, \<^verbatim>\<open>uint16_t\<close>, \<^verbatim>\<open>uint32_t\<close>, \<^verbatim>\<open>uint64_t\<close> and \<^verbatim>\<open>size_t\<close> (LP64) are
    words of 8, 16, 32, 64 and 64 bits; the signed types are the same words read
    with \<open>sint\<close>; arithmetic wraps as in C++.
  \<^item> \<^verbatim>\<open>TS_ASSERT\<close> is \<^verbatim>\<open>assert\<close>; the model is the \<^verbatim>\<open>NDEBUG\<close> build, where it
    expands to nothing and the code after it runs.
  \<^item> An object of type \<^verbatim>\<open>uintN_be\<close> / \<^verbatim>\<open>intN_be\<close> holds the byte-swapped value, so
    on the little-endian host that \<^verbatim>\<open>EndianTypes.h\<close> fixes its bytes in memory are
    the big-endian bytes of the value: \<open>be_bytes\<close>. \<^verbatim>\<open>f32_le\<close> and \<^verbatim>\<open>f64_le\<close> are
    plain \<^verbatim>\<open>float\<close> and \<^verbatim>\<open>double\<close>, whose bytes in memory are the little-endian
    bytes of the IEEE-754 bit pattern: \<open>le_bytes\<close>.
  \<^item> The output stream is an in-memory byte sink that accepts every write
    (\<^verbatim>\<open>std::stringstream\<close>); \<^verbatim>\<open>tellp()\<close> is the number of bytes written.
\<close>

type_synonym byte = "8 word"
type_synonym u16 = "16 word"
type_synonym u32 = "32 word"
type_synonym u64 = "64 word"

definition InvalidTokenValue :: u64 where
  "InvalidTokenValue = 0xffffffffffffffff"

subsection \<open>Bytes of a value in memory\<close>

fun be_bytes :: "nat \<Rightarrow> 'a::len word \<Rightarrow> byte list" where
  "be_bytes 0 v = []"
| "be_bytes (Suc n) v = be_bytes n (drop_bit 8 v) @ [ucast v]"

fun le_bytes :: "nat \<Rightarrow> 'a::len word \<Rightarrow> byte list" where
  "le_bytes 0 v = []"
| "le_bytes (Suc n) v = ucast v # le_bytes n (drop_bit 8 v)"

text \<open>The value of a big-endian byte sequence (what a \<^verbatim>\<open>uintN_be\<close> object whose
  memory holds these bytes converts to).\<close>

definition from_be :: "byte list \<Rightarrow> 'a::len word" where
  "from_be bs = foldl (\<lambda>acc b. push_bit 8 acc OR ucast b) 0 bs"

subsection \<open>Writer\<close>

record Writer =
  w_stream :: "byte list"
  w_nextToken :: u64
  w_trimDefaults :: bool
  w_badStream :: bool
  w_containerToken :: u64
  w_containerElementCount :: u64
  w_containerElementIndex :: u64

text \<open>\<^verbatim>\<open>Writer(std::ostream&, bool trimDefaults = true)\<close> on an empty stream.\<close>

definition new_Writer :: "bool \<Rightarrow> Writer" where
  "new_Writer trimDefaults =
     \<lparr> w_stream = [], w_nextToken = InvalidTokenValue, w_trimDefaults = trimDefaults,
       w_badStream = False, w_containerToken = InvalidTokenValue,
       w_containerElementCount = 0, w_containerElementIndex = 0 \<rparr>"

text \<open>\<^verbatim>\<open>VERIFIED_WRITE\<close>: \<^verbatim>\<open>m_stream\<close> is a \<^verbatim>\<open>std::ostream*\<close>, so the test
  \<^verbatim>\<open>if (!m_stream)\<close> after the write compares the pointer with null and never
  fires; the macro is the write alone.\<close>

definition VERIFIED_WRITE :: "byte list \<Rightarrow> Writer \<Rightarrow> Writer" where
  "VERIFIED_WRITE bs w = w\<lparr>w_stream := w_stream w @ bs\<rparr>"

text \<open>The bytes a call appended to the output stream.\<close>

definition emitted :: "Writer \<Rightarrow> Writer \<Rightarrow> byte list" where
  "emitted w w' = drop (length (w_stream w)) (w_stream w')"

text \<open>\<^verbatim>\<open>while (len > 1 && !*block) { len--; block++; }\<close>\<close>

fun skip_leading_zeros :: "byte list \<Rightarrow> byte list" where
  "skip_leading_zeros (b # c # bs) = (if b = 0 then skip_leading_zeros (c # bs) else b # c # bs)"
| "skip_leading_zeros bs = bs"

text \<open>\<^verbatim>\<open>while (len > 1 && *block == 0xff && (block[1] & 0x80u) == 0x80u) { len--; block++; }\<close>\<close>

fun skip_extended_sign :: "byte list \<Rightarrow> byte list" where
  "skip_extended_sign (b # c # bs) =
     (if b = 0xff \<and> c AND 0x80 = 0x80 then skip_extended_sign (c # bs) else b # c # bs)"
| "skip_extended_sign bs = bs"

definition WriteLengthEncoded :: "u64 \<Rightarrow> Writer \<Rightarrow> Writer" where
  "WriteLengthEncoded v w =
     (if w_badStream w then w
      else if v < 0x80 then VERIFIED_WRITE [ucast v] w
      else if v < 0x7800 then VERIFIED_WRITE (be_bytes 2 ((ucast v :: u16) OR 0x8000)) w
      else let block = skip_leading_zeros (be_bytes 8 v);
               markedLen = (of_nat (length block) :: byte) + 0xf7
           in VERIFIED_WRITE block (VERIFIED_WRITE [markedLen] w))"

definition PutDataHeader :: "u64 \<Rightarrow> u64 \<Rightarrow> Writer \<Rightarrow> Writer" where
  "PutDataHeader token len w0 =
     (let w = w0\<lparr>w_nextToken := InvalidTokenValue\<rparr> in
      if len \<noteq> 0 \<or> \<not> w_trimDefaults w then
        if w_containerToken w \<noteq> InvalidTokenValue then
          if token \<noteq> w_containerToken w then w\<lparr>w_badStream := True\<rparr>
          else
            let w1 = (if w_containerElementIndex w = 0 then WriteLengthEncoded token w else w);
                w2 = w1\<lparr>w_containerElementIndex := w_containerElementIndex w1 + 1\<rparr>;
                w3 = (if w_containerElementIndex w2 = w_containerElementCount w2
                      then w2\<lparr>w_containerToken := InvalidTokenValue\<rparr> else w2)
            in WriteLengthEncoded len w3
        else if token = InvalidTokenValue \<and> length (w_stream w) \<noteq> 0 then
          w\<lparr>w_badStream := True\<rparr>
        else if token \<noteq> InvalidTokenValue then
          WriteLengthEncoded len (WriteLengthEncoded token w)
        else WriteLengthEncoded len w
      else w)"

text \<open>The trimming part of \<^verbatim>\<open>Writer::PutData\<close>: the block that remains of \<open>data\<close>
  (\<^verbatim>\<open>len\<close> is its length). \<^verbatim>\<open>block--\<close> steps back to the byte of \<open>data\<close> just
  before the block.\<close>

definition trim_block :: "byte list \<Rightarrow> bool \<Rightarrow> bool \<Rightarrow> byte list" where
  "trim_block data removeLeadingZeros handleExtendedSign =
     (if data \<noteq> [] \<and> removeLeadingZeros then
        if handleExtendedSign \<and> hd data = 0xff then skip_extended_sign data
        else
          let block = skip_leading_zeros data in
          if handleExtendedSign \<and> block \<noteq> [] \<and> block \<noteq> data \<and> hd block AND 0x80 = 0x80
          then drop (length data - Suc (length block)) data
          else block
      else data)"

definition PutData :: "u64 \<Rightarrow> byte list \<Rightarrow> bool \<Rightarrow> bool \<Rightarrow> Writer \<Rightarrow> Writer" where
  "PutData token data removeLeadingZeros handleExtendedSign w =
     (if w_badStream w then w
      else
        let block = trim_block data removeLeadingZeros handleExtendedSign;
            w1 = PutDataHeader token (of_nat (length block)) w
        in if block \<noteq> [] then VERIFIED_WRITE block w1 else w1)"

text \<open>\<^verbatim>\<open>PUTNUMBER(token, value, defaultValue, conversionType, extendedSign)\<close>: \<open>differs\<close>
  is \<^verbatim>\<open>(value) != (defaultValue)\<close> and \<open>conv\<close> the bytes of the \<^verbatim>\<open>conversionType\<close>
  object.\<close>

definition PUTNUMBER :: "u64 \<Rightarrow> bool \<Rightarrow> byte list \<Rightarrow> bool \<Rightarrow> Writer \<Rightarrow> Writer" where
  "PUTNUMBER token differs conv extendedSign w =
     (if \<not> w_trimDefaults w \<or> differs then PutData token conv True extendedSign w
      else w\<lparr>w_nextToken := InvalidTokenValue\<rparr>)"

text \<open>\<^verbatim>\<open>!=\<close> on \<^verbatim>\<open>float\<close> and \<^verbatim>\<open>double\<close>, on the IEEE-754 bit patterns: a NaN differs
  from everything, itself included, and the two zeros are equal.\<close>

definition f32_isnan :: "u32 \<Rightarrow> bool" where
  "f32_isnan x = (x AND 0x7f800000 = 0x7f800000 \<and> x AND 0x007fffff \<noteq> 0)"

definition f32_ne :: "u32 \<Rightarrow> u32 \<Rightarrow> bool" where
  "f32_ne a b =
     (f32_isnan a \<or> f32_isnan b \<or> (a \<noteq> b \<and> \<not> (a AND 0x7fffffff = 0 \<and> b AND 0x7fffffff = 0)))"

definition f64_isnan :: "u64 \<Rightarrow> bool" where
  "f64_isnan x = (x AND 0x7ff0000000000000 = 0x7ff0000000000000 \<and> x AND 0x000fffffffffffff \<noteq> 0)"

definition f64_ne :: "u64 \<Rightarrow> u64 \<Rightarrow> bool" where
  "f64_ne a b =
     (f64_isnan a \<or> f64_isnan b \<or>
      (a \<noteq> b \<and> \<not> (a AND 0x7fffffffffffffff = 0 \<and> b AND 0x7fffffffffffffff = 0)))"

text \<open>The overloads of \<^verbatim>\<open>Writer::Put(Token, value, defaultValue)\<close>.\<close>

definition Put_uint8 :: "u64 \<Rightarrow> byte \<Rightarrow> byte \<Rightarrow> Writer \<Rightarrow> Writer" where
  "Put_uint8 token v d = PUTNUMBER token (v \<noteq> d) [v] False"

definition Put_int8 :: "u64 \<Rightarrow> byte \<Rightarrow> byte \<Rightarrow> Writer \<Rightarrow> Writer" where
  "Put_int8 token v d = PUTNUMBER token (v \<noteq> d) [v] False"

definition Put_bool :: "u64 \<Rightarrow> bool \<Rightarrow> bool \<Rightarrow> Writer \<Rightarrow> Writer" where
  "Put_bool token v d = Put_uint8 token (if v then 1 else 0) (if d then 1 else 0)"

definition Put_uint16 :: "u64 \<Rightarrow> u16 \<Rightarrow> u16 \<Rightarrow> Writer \<Rightarrow> Writer" where
  "Put_uint16 token v d = PUTNUMBER token (v \<noteq> d) (be_bytes 2 v) False"

definition Put_int16 :: "u64 \<Rightarrow> u16 \<Rightarrow> u16 \<Rightarrow> Writer \<Rightarrow> Writer" where
  "Put_int16 token v d = PUTNUMBER token (v \<noteq> d) (be_bytes 2 v) True"

definition Put_uint32 :: "u64 \<Rightarrow> u32 \<Rightarrow> u32 \<Rightarrow> Writer \<Rightarrow> Writer" where
  "Put_uint32 token v d = PUTNUMBER token (v \<noteq> d) (be_bytes 4 v) False"

definition Put_int32 :: "u64 \<Rightarrow> u32 \<Rightarrow> u32 \<Rightarrow> Writer \<Rightarrow> Writer" where
  "Put_int32 token v d = PUTNUMBER token (v \<noteq> d) (be_bytes 4 v) True"

definition Put_uint64 :: "u64 \<Rightarrow> u64 \<Rightarrow> u64 \<Rightarrow> Writer \<Rightarrow> Writer" where
  "Put_uint64 token v d = PUTNUMBER token (v \<noteq> d) (be_bytes 8 v) False"

definition Put_int64 :: "u64 \<Rightarrow> u64 \<Rightarrow> u64 \<Rightarrow> Writer \<Rightarrow> Writer" where
  "Put_int64 token v d = PUTNUMBER token (v \<noteq> d) (be_bytes 8 v) True"

definition Put_float :: "u64 \<Rightarrow> u32 \<Rightarrow> u32 \<Rightarrow> Writer \<Rightarrow> Writer" where
  "Put_float token v d = PUTNUMBER token (f32_ne v d) (le_bytes 4 v) False"

definition Put_double :: "u64 \<Rightarrow> u64 \<Rightarrow> u64 \<Rightarrow> Writer \<Rightarrow> Writer" where
  "Put_double token v d = PUTNUMBER token (f64_ne v d) (le_bytes 8 v) False"

text \<open>\<^verbatim>\<open>Writer::Put(Token, const void* block, uint64_t len)\<close>\<close>

definition Put_block :: "u64 \<Rightarrow> byte list \<Rightarrow> Writer \<Rightarrow> Writer" where
  "Put_block token block = PutData token block False False"

text \<open>\<^verbatim>\<open>Writer::Put(Token, const char* str, const char* defaultValue)\<close>; a pointer is
  \<open>None\<close> when null and otherwise the characters before the terminator.\<close>

definition Put_cstr :: "u64 \<Rightarrow> byte list option \<Rightarrow> byte list option \<Rightarrow> Writer \<Rightarrow> Writer" where
  "Put_cstr token str defaultValue w =
     (let empty = (\<lambda>s. s = None \<or> s = Some []);
          needsWrite =
            (if \<not> w_trimDefaults w then True
             else if \<not> empty defaultValue then empty str \<or> str \<noteq> defaultValue
             else \<not> empty str);
          w1 = (if needsWrite then
                  if empty str then
                    (PutData token [] False False (w\<lparr>w_trimDefaults := False\<rparr>))
                      \<lparr>w_trimDefaults := w_trimDefaults w\<rparr>
                  else PutData token (the str) False False w
                else w)
      in w1\<lparr>w_nextToken := InvalidTokenValue\<rparr>)"

definition PutContainerElementCount :: "u64 \<Rightarrow> u64 \<Rightarrow> Writer \<Rightarrow> Writer" where
  "PutContainerElementCount token sz w =
     (if w_badStream w \<or> sz < 2 then w
      else
        WriteLengthEncoded sz
          (VERIFIED_WRITE [0xf8]
            (w\<lparr>w_containerToken := token, w_containerElementCount := sz,
               w_containerElementIndex := 0\<rparr>)))"

subsection \<open>The input stream\<close>

text \<open>
  The Reader borrows a \<^verbatim>\<open>std::istream\<close>. The model is an in-memory stream with the
  default exception mask: \<open>s_data\<close> are the bytes from the position at which the
  Reader was constructed, \<open>s_pos\<close> is the get position and \<open>s_fail\<close> is \<^verbatim>\<open>failbit\<close>.
  A short \<^verbatim>\<open>read\<close> delivers the bytes that are left and sets \<^verbatim>\<open>failbit\<close>; on a failed
  stream \<^verbatim>\<open>read\<close> delivers nothing and \<^verbatim>\<open>seekg\<close> does nothing; a \<^verbatim>\<open>seekg\<close> outside the
  data sets \<^verbatim>\<open>failbit\<close> and throws nothing, so the \<^verbatim>\<open>catch\<close> branch of
  \<^verbatim>\<open>Reader::SkipBytes\<close> is not entered. The offset of \<^verbatim>\<open>seekg(bytes, cur)\<close> is the
  \<^verbatim>\<open>size_t\<close> converted to the signed \<^verbatim>\<open>streamoff\<close>.
\<close>

record IStream =
  s_data :: "byte list"
  s_pos :: nat
  s_fail :: bool

definition stream_read :: "nat \<Rightarrow> IStream \<Rightarrow> byte list \<times> IStream" where
  "stream_read n s =
     (if s_fail s then ([], s)
      else if s_pos s + n \<le> length (s_data s)
      then (take n (drop (s_pos s) (s_data s)), s\<lparr>s_pos := s_pos s + n\<rparr>)
      else (drop (s_pos s) (s_data s), s\<lparr>s_pos := length (s_data s), s_fail := True\<rparr>))"

definition stream_seekg_cur :: "u64 \<Rightarrow> IStream \<Rightarrow> IStream" where
  "stream_seekg_cur off s =
     (if s_fail s then s
      else let p = int (s_pos s) + sint off in
        if 0 \<le> p \<and> p \<le> int (length (s_data s)) then s\<lparr>s_pos := nat p\<rparr>
        else s\<lparr>s_fail := True\<rparr>)"

subsection \<open>Reader\<close>

record SubStreamContext =
  m_containerToken :: u64
  m_containerElementCount :: u64
  m_containerElementIndex :: u64
  m_containerElementEnd :: u64
  m_end :: u64

text \<open>\<^verbatim>\<open>explicit SubStreamContext(size_t end = 0)\<close>; a default-constructed
  \<^verbatim>\<open>Token\<close> is the invalid token.\<close>

definition new_SubStreamContext :: "u64 \<Rightarrow> SubStreamContext" where
  "new_SubStreamContext e =
     \<lparr> m_containerToken = InvalidTokenValue, m_containerElementCount = 0,
       m_containerElementIndex = 0, m_containerElementEnd = 0, m_end = e \<rparr>"

record Reader =
  m_stream :: IStream
  m_offset :: u64
  m_remainingInElement :: u64
  m_nextContainerElementCount :: u64
  m_lastToken :: u64
  m_context :: SubStreamContext
  m_tokenPushed :: bool
  m_badStream :: bool

text \<open>\<^verbatim>\<open>Reader::Reader(std::istream&)\<close> on a stream that holds \<open>bytes\<close>.\<close>

definition new_Reader :: "byte list \<Rightarrow> Reader" where
  "new_Reader bytes =
     \<lparr> m_stream = \<lparr> s_data = bytes, s_pos = 0, s_fail = False \<rparr>,
       m_offset = 0, m_remainingInElement = 0, m_nextContainerElementCount = 0,
       m_lastToken = InvalidTokenValue,
       m_context = new_SubStreamContext (of_nat (length bytes)),
       m_tokenPushed = False, m_badStream = False \<rparr>"

text \<open>The failure branch of \<^verbatim>\<open>VERIFY_TOKENSTREAM\<close> (before its \<^verbatim>\<open>return\<close>).\<close>

definition verify_failed :: "Reader \<Rightarrow> Reader" where
  "verify_failed r = r\<lparr>m_lastToken := InvalidTokenValue, m_badStream := True\<rparr>"

text \<open>\<^verbatim>\<open>VERIFIED_READ(byte_count, location)\<close>: the bytes stored at \<open>location\<close> and
  the Reader afterwards.\<close>

definition VERIFIED_READ :: "nat \<Rightarrow> Reader \<Rightarrow> byte list \<times> Reader" where
  "VERIFIED_READ byte_count r =
     (let (bs, s) = stream_read byte_count (m_stream r);
          r1 = r\<lparr>m_stream := s\<rparr>
      in if length bs \<noteq> byte_count then (bs, verify_failed r1) else (bs, r1))"

definition PastEOS :: "u64 \<Rightarrow> Reader \<Rightarrow> bool" where
  "PastEOS off r = (m_end (m_context r) \<noteq> 0 \<and> m_offset r + off > m_end (m_context r))"

definition EOS :: "Reader \<Rightarrow> bool" where
  "EOS r = (m_badStream r \<or> (m_offset r \<ge> m_end (m_context r) \<and> \<not> m_tokenPushed r))"

definition PushLastToken :: "Reader \<Rightarrow> Reader" where
  "PushLastToken r = r\<lparr>m_tokenPushed := True\<rparr>"

text \<open>\<^verbatim>\<open>Reader::Fetch(uint8_t* v)\<close>: the bytes stored at \<open>v\<close> (none when
  \<^verbatim>\<open>m_remainingInElement\<close> is 0) and the Reader afterwards.\<close>

definition Fetch :: "Reader \<Rightarrow> byte list \<times> Reader" where
  "Fetch r =
     (if m_remainingInElement r = 0 then ([], r)
      else
        let (bs, r1) = VERIFIED_READ (unat (m_remainingInElement r)) r
        in (bs, r1\<lparr>m_offset := m_offset r1 + m_remainingInElement r1,
                   m_remainingInElement := 0\<rparr>))"

text \<open>
  \<^verbatim>\<open>Reader::FetchPartial<T>(bool signExtend)\<close> for the big-endian integer types;
  \<^verbatim>\<open>sizeof(T)\<close> is \<open>LENGTH('a) div 8\<close>. The payload is stored right-aligned in the
  zero-initialised \<open>result\<close>. \<^verbatim>\<open>*dest\<close> is the first payload byte; when the payload is
  empty, \<open>dest\<close> points just behind \<open>result\<close> and \<^verbatim>\<open>*dest\<close> reads whatever byte \<open>oob\<close>
  lies there.
\<close>

definition FetchPartial :: "bool \<Rightarrow> byte \<Rightarrow> Reader \<Rightarrow> 'a::len word \<times> Reader" where
  "FetchPartial signExtend oob r =
     (let sz = LENGTH('a) div 8 in
      if \<not> m_remainingInElement r \<le> of_nat sz then (0, verify_failed r)
      else
        let fill = sz - unat (m_remainingInElement r);
            (bs, r1) = Fetch r
        in if m_badStream r1 then (0, r1)
           else
             let dest0 = (case bs of [] \<Rightarrow> oob | b # _ \<Rightarrow> b) in
             if signExtend \<and> fill \<noteq> 0 \<and> dest0 AND 0x80 = 0x80
             then (from_be (replicate fill 0xff @ bs), r1)
             else (from_be (replicate fill 0 @ bs), r1))"

text \<open>
  \<^verbatim>\<open>Reader::ReadLengthEncoded(bool forToken)\<close> in three parts. \<open>ReadLengthEncoded_first\<close>
  is the code up to \<^verbatim>\<open>++m_offset\<close>: \<open>Inl\<close> is an early \<^verbatim>\<open>return 0\<close>, \<open>Inr\<close> the byte
  read. \<open>ReadLengthEncoded_rest\<close> is the code after the test for \<open>0xf8\<close>.
\<close>

definition ReadLengthEncoded_first :: "Reader \<Rightarrow> Reader + byte \<times> Reader" where
  "ReadLengthEncoded_first r =
     (if PastEOS 1 r then Inl (verify_failed r)
      else if m_badStream r then Inl r
      else
        let (bs, r1) = VERIFIED_READ 1 r in
        if m_badStream r1 then Inl r1
        else case bs of [] \<Rightarrow> Inl r1 | v # _ \<Rightarrow> Inr (v, r1\<lparr>m_offset := m_offset r1 + 1\<rparr>))"

definition ReadLengthEncoded_rest :: "byte \<Rightarrow> Reader \<Rightarrow> u64 \<times> Reader" where
  "ReadLengthEncoded_rest v r =
     (if v < 0x80 then (ucast v, r)
      else if v < 0xf8 then
        if PastEOS 1 r then (0, verify_failed r)
        else
          let v16 = push_bit 8 (ucast (v AND 0x7f) :: u16);
              (bs, r1) = VERIFIED_READ 1 r
          in if m_badStream r1 then (0, r1)
             else case bs of [] \<Rightarrow> (0, r1)
                  | c # _ \<Rightarrow> (ucast (v16 OR ucast c), r1\<lparr>m_offset := m_offset r1 + 1\<rparr>)
      else
        let r1 = r\<lparr>m_remainingInElement := ucast (v - 0xf7)\<rparr> in
        if PastEOS (m_remainingInElement r1) r1 then (0, verify_failed r1)
        else FetchPartial False 0 r1)"

text \<open>\<^verbatim>\<open>DecodeLength()\<close> is \<^verbatim>\<open>ReadLengthEncoded(false)\<close>: \<open>0xf8\<close> sets
  \<^verbatim>\<open>m_badStream\<close>.\<close>

definition DecodeLength :: "Reader \<Rightarrow> u64 \<times> Reader" where
  "DecodeLength r =
     (case ReadLengthEncoded_first r of
        Inl r' \<Rightarrow> (0, r')
      | Inr (v, r1) \<Rightarrow>
          if v = 0xf8 then (0, r1\<lparr>m_badStream := True\<rparr>)
          else ReadLengthEncoded_rest v r1)"

text \<open>
  \<^verbatim>\<open>DecodeToken()\<close> is \<^verbatim>\<open>ReadLengthEncoded(true)\<close>: after \<open>0xf8\<close> it decodes the
  element count with \<^verbatim>\<open>DecodeLength()\<close> and then calls itself for the token. The
  recursion ends because every call reads a byte first: the bytes left in the stream
  decrease.
\<close>

definition stream_left :: "Reader \<Rightarrow> nat" where
  "stream_left r =
     (if s_fail (m_stream r) then 0 else length (s_data (m_stream r)) - s_pos (m_stream r))"

lemma stream_left_update [simp]:
  "stream_left (r\<lparr>m_offset := a\<rparr>) = stream_left r"
  "stream_left (r\<lparr>m_remainingInElement := b\<rparr>) = stream_left r"
  "stream_left (r\<lparr>m_nextContainerElementCount := c\<rparr>) = stream_left r"
  "stream_left (r\<lparr>m_lastToken := d\<rparr>) = stream_left r"
  "stream_left (r\<lparr>m_context := e\<rparr>) = stream_left r"
  "stream_left (r\<lparr>m_tokenPushed := f\<rparr>) = stream_left r"
  "stream_left (r\<lparr>m_badStream := g\<rparr>) = stream_left r"
  by (simp_all add: stream_left_def)

lemma stream_left_verify_failed [simp]: "stream_left (verify_failed r) = stream_left r"
  by (simp add: verify_failed_def)

lemma VERIFIED_READ_left: "stream_left (snd (VERIFIED_READ n r)) \<le> stream_left r"
  by (auto simp add: VERIFIED_READ_def stream_read_def stream_left_def verify_failed_def Let_def)

lemma VERIFIED_READ_left_strict:
  assumes "VERIFIED_READ n r = (bs, r')" "\<not> m_badStream r'" "0 < n"
  shows "stream_left r' < stream_left r"
  using assms
  by (auto simp add: VERIFIED_READ_def stream_read_def stream_left_def verify_failed_def Let_def
      split: if_splits)

lemma Fetch_left: "stream_left (snd (Fetch r)) \<le> stream_left r"
  using VERIFIED_READ_left [of "unat (m_remainingInElement r)" r]
  by (simp add: Fetch_def split_beta)

lemma FetchPartial_left: "stream_left (snd (FetchPartial signExtend oob r)) \<le> stream_left r"
  using Fetch_left [of r]
  by (simp add: FetchPartial_def Let_def split_beta)

lemma ReadLengthEncoded_rest_left:
  "stream_left (snd (ReadLengthEncoded_rest v r)) \<le> stream_left r"
proof -
  let ?r1 = "r\<lparr>m_remainingInElement := ucast (v - 0xf7)\<rparr>"
  have a: "stream_left (snd (VERIFIED_READ 1 r)) \<le> stream_left r"
    by (rule VERIFIED_READ_left)
  have "stream_left (snd (FetchPartial False 0 ?r1 :: u64 \<times> Reader)) \<le> stream_left ?r1"
    by (rule FetchPartial_left)
  then have b: "stream_left (snd (FetchPartial False 0 ?r1 :: u64 \<times> Reader)) \<le> stream_left r"
    by simp
  show ?thesis
    using a b
    by (simp add: ReadLengthEncoded_rest_def Let_def split_beta split: list.split)
qed

lemma ReadLengthEncoded_first_left:
  assumes "ReadLengthEncoded_first r = Inr (v, r1)"
  shows "stream_left r1 < stream_left r"
proof -
  obtain bs r' where rd: "VERIFIED_READ 1 r = (bs, r')" by (cases "VERIFIED_READ 1 r")
  from assms rd have "\<not> m_badStream r'" and r1: "r1 = r'\<lparr>m_offset := m_offset r' + 1\<rparr>"
    by (auto simp add: ReadLengthEncoded_first_def split: if_splits list.splits)
  with rd have "stream_left r' < stream_left r"
    by (simp add: VERIFIED_READ_left_strict)
  then show ?thesis using r1 by simp
qed

lemma ReadLengthEncoded_first_left_Inl:
  assumes "ReadLengthEncoded_first r = Inl r'"
  shows "stream_left r' \<le> stream_left r"
  using assms VERIFIED_READ_left [of 1 r]
  by (auto simp add: ReadLengthEncoded_first_def split_beta split: if_splits list.splits)

lemma DecodeLength_left: "stream_left (snd (DecodeLength r)) \<le> stream_left r"
proof (cases "ReadLengthEncoded_first r")
  case (Inl r')
  then show ?thesis
    by (simp add: DecodeLength_def ReadLengthEncoded_first_left_Inl)
next
  case (Inr p)
  obtain v r1 where p: "p = (v, r1)" by (cases p)
  have "stream_left r1 < stream_left r"
    using Inr p by (simp add: ReadLengthEncoded_first_left)
  moreover have "stream_left (snd (ReadLengthEncoded_rest v r1)) \<le> stream_left r1"
    by (rule ReadLengthEncoded_rest_left)
  ultimately show ?thesis using Inr p
    by (simp add: DecodeLength_def)
qed

function DecodeToken :: "Reader \<Rightarrow> u64 \<times> Reader" where
  "DecodeToken r =
     (case ReadLengthEncoded_first r of
        Inl r' \<Rightarrow> (0, r')
      | Inr (v, r1) \<Rightarrow>
          if v = 0xf8 then
            (let (n, r2) = DecodeLength r1
             in DecodeToken (r2\<lparr>m_nextContainerElementCount := n\<rparr>))
          else ReadLengthEncoded_rest v r1)"
  by pat_completeness auto
termination
proof (relation "measure stream_left")
  show "wf (measure stream_left)" by simp
next
  fix r :: Reader and p v r1 q n r2
  assume a: "ReadLengthEncoded_first r = Inr p" "(v, r1) = p" and "v = 0xf8"
    and b: "q = DecodeLength r1" "(n, r2) = q"
  from a have "ReadLengthEncoded_first r = Inr (v, r1)" by simp
  then have "stream_left r1 < stream_left r"
    by (rule ReadLengthEncoded_first_left)
  moreover from b have "stream_left r2 \<le> stream_left r1"
    using DecodeLength_left [of r1] by (metis snd_conv)
  ultimately show "(r2\<lparr>m_nextContainerElementCount := n\<rparr>, r) \<in> measure stream_left"
    by simp
qed

declare DecodeToken.simps [simp del]

definition ReadLengthEncoded :: "bool \<Rightarrow> Reader \<Rightarrow> u64 \<times> Reader" where
  "ReadLengthEncoded forToken r = (if forToken then DecodeToken r else DecodeLength r)"

definition SkipBytes :: "u64 \<Rightarrow> Reader \<Rightarrow> Reader" where
  "SkipBytes bytes r =
     (let r1 = r\<lparr>m_tokenPushed := False, m_remainingInElement := 0\<rparr> in
      if m_badStream r1 \<or> bytes = 0 then r1
      else r1\<lparr>m_stream := stream_seekg_cur bytes (m_stream r1), m_offset := m_offset r1 + bytes\<rparr>)"

definition Skip :: "Reader \<Rightarrow> Reader" where
  "Skip r = SkipBytes (m_remainingInElement r) r"

text \<open>\<^verbatim>\<open>Reader::GetToken()\<close>. \<open>GetToken_length\<close> is its second half, from the test
  of \<^verbatim>\<open>m_badStream\<close> that follows the two branches to the end.\<close>

definition GetToken_length :: "bool \<Rightarrow> Reader \<Rightarrow> u64 \<times> Reader" where
  "GetToken_length updateContainerElementEnd r =
     (if m_badStream r then (InvalidTokenValue, r\<lparr>m_lastToken := InvalidTokenValue\<rparr>)
      else
        let (len, r1) = DecodeLength r;
            r2 = r1\<lparr>m_remainingInElement := len\<rparr>;
            r3 = (if updateContainerElementEnd
                  then r2\<lparr>m_context := (m_context r2)
                          \<lparr>m_containerElementEnd := m_offset r2 + m_remainingInElement r2\<rparr>\<rparr>
                  else r2)
        in if m_badStream r3 then (InvalidTokenValue, r3)
           else if PastEOS (m_remainingInElement r3) r3 then (InvalidTokenValue, verify_failed r3)
           else (m_lastToken r3, r3))"

definition GetToken :: "Reader \<Rightarrow> u64 \<times> Reader" where
  "GetToken r =
     (if m_badStream r then (InvalidTokenValue, r)
      else if m_tokenPushed r then (m_lastToken r, r\<lparr>m_tokenPushed := False\<rparr>)
      else
        let r1 = (if m_remainingInElement r \<noteq> 0 then Skip r else r) in
        if m_remainingInElement r \<noteq> 0 \<and> EOS r1 then (InvalidTokenValue, r1)
        else
          let r2 = r1\<lparr>m_nextContainerElementCount := 0\<rparr>;
              c = m_context r2
          in
          if m_containerElementEnd c \<noteq> 0 \<and> m_containerElementEnd c = m_offset r2 then
            if PastEOS 1 r2 then (InvalidTokenValue, verify_failed r2)
            else
              let r3 = r2\<lparr>m_lastToken := m_containerToken c\<rparr>;
                  c1 = c\<lparr>m_containerElementIndex := m_containerElementIndex c + 1\<rparr>
              in
              if m_containerElementIndex c1 = m_containerElementCount c1 then
                GetToken_length False
                  (r3\<lparr>m_context := c1\<lparr>m_containerElementCount := 0, m_containerElementIndex := 0,
                                      m_containerElementEnd := 0,
                                      m_containerToken := InvalidTokenValue\<rparr>\<rparr>)
              else GetToken_length True (r3\<lparr>m_context := c1\<rparr>)
          else
            if PastEOS 2 r2 then (InvalidTokenValue, verify_failed r2)
            else
              let (t, r3) = DecodeToken r2;
                  r4 = r3\<lparr>m_lastToken := t\<rparr>
              in
              if m_nextContainerElementCount r4 > 1 then
                GetToken_length True
                  (r4\<lparr>m_context := (m_context r4)
                        \<lparr>m_containerToken := m_lastToken r4,
                         m_containerElementCount := m_nextContainerElementCount r4,
                         m_containerElementIndex := 1\<rparr>\<rparr>)
              else GetToken_length False r4)"

text \<open>
  The getters. \<^verbatim>\<open>GetByte\<close> and \<^verbatim>\<open>GetUByte\<close> declare \<^verbatim>\<open>uint8_t t;\<close> without an
  initialiser and pass its address to \<^verbatim>\<open>Fetch\<close>; \<open>t0\<close> is the value the variable
  holds before the call, and it is returned when \<^verbatim>\<open>Fetch\<close> stores nothing. (With more
  than one byte remaining, \<^verbatim>\<open>Fetch\<close> writes behind \<open>t\<close>; the model keeps the first
  byte.)
\<close>

definition GetUByte :: "byte \<Rightarrow> Reader \<Rightarrow> byte \<times> Reader" where
  "GetUByte t0 r = (let (bs, r1) = Fetch r in (case bs of [] \<Rightarrow> t0 | b # _ \<Rightarrow> b, r1))"

definition GetByte :: "byte \<Rightarrow> Reader \<Rightarrow> byte \<times> Reader" where
  "GetByte t0 r = (let (bs, r1) = Fetch r in (case bs of [] \<Rightarrow> t0 | b # _ \<Rightarrow> b, r1))"

definition GetBool :: "byte \<Rightarrow> Reader \<Rightarrow> bool \<times> Reader" where
  "GetBool t0 r = (let (b, r1) = GetByte t0 r in (b = 1, r1))"

definition GetWord :: "byte \<Rightarrow> Reader \<Rightarrow> u16 \<times> Reader" where
  "GetWord oob = FetchPartial True oob"

definition GetUWord :: "Reader \<Rightarrow> u16 \<times> Reader" where
  "GetUWord = FetchPartial False 0"

definition GetLong :: "byte \<Rightarrow> Reader \<Rightarrow> u32 \<times> Reader" where
  "GetLong oob = FetchPartial True oob"

definition GetULong :: "Reader \<Rightarrow> u32 \<times> Reader" where
  "GetULong = FetchPartial False 0"

definition GetLongLong :: "byte \<Rightarrow> Reader \<Rightarrow> u64 \<times> Reader" where
  "GetLongLong oob = FetchPartial True oob"

definition GetULongLong :: "Reader \<Rightarrow> u64 \<times> Reader" where
  "GetULongLong = FetchPartial False 0"

text \<open>
  \<^verbatim>\<open>Reader::operator>>(std::string&)\<close> and \<^verbatim>\<open>GetString\<close>. \<^verbatim>\<open>rhs.resize(len)\<close> throws
  \<^verbatim>\<open>std::length_error\<close> when \<open>len\<close> is above \<^verbatim>\<open>max_size()\<close> of the string, a constant of
  the standard library and a parameter here. The exception leaves the function before
  anything is read, with the Reader as it was; it is the result \<open>Inl\<close>. Up to
  \<^verbatim>\<open>max_size()\<close> the allocation is taken to succeed.
\<close>

datatype exception = length_error

definition GetString :: "nat \<Rightarrow> Reader \<Rightarrow> exception + byte list \<times> Reader" where
  "GetString max_size r =
     (if m_remainingInElement r \<noteq> 0 then
        if max_size < unat (m_remainingInElement r) then Inl length_error
        else
          let (bs, r1) = Fetch r in
          if m_badStream r1 then Inr ([], r1) else Inr (bs, r1)
      else Inr ([], r))"

text \<open>\<^verbatim>\<open>Reader::SubStream\<close>: the constructor returns the saved context
  (\<^verbatim>\<open>m_oldContext\<close>) with the Reader, the destructor takes it back.\<close>

definition SubStream_open :: "Reader \<Rightarrow> SubStreamContext \<times> Reader" where
  "SubStream_open r =
     (m_context r,
      r\<lparr>m_context := new_SubStreamContext (m_offset r + m_remainingInElement r),
        m_remainingInElement := 0\<rparr>)"

definition SubStream_close :: "SubStreamContext \<Rightarrow> Reader \<Rightarrow> Reader" where
  "SubStream_close oldContext r =
     (SkipBytes (m_end (m_context r) - m_offset r) r)\<lparr>m_context := oldContext\<rparr>"

text \<open>A scope \<^verbatim>\<open>{ SubStream sub{reader}; inner(reader); }\<close>.\<close>

definition with_SubStream :: "(Reader \<Rightarrow> Reader) \<Rightarrow> Reader \<Rightarrow> Reader" where
  "with_SubStream inner r =
     (let (oldContext, r1) = SubStream_open r in SubStream_close oldContext (inner r1))"



subsection \<open>Notions used in the statements, and example states\<close>

text \<open>The stream is good and holds the bytes \<open>bs\<close> at the get position.\<close>

definition stream_has :: "byte list \<Rightarrow> Reader \<Rightarrow> bool" where
  "stream_has bs r =
     (\<not> s_fail (m_stream r) \<and> s_pos (m_stream r) + length bs \<le> length (s_data (m_stream r)) \<and>
      take (length bs) (drop (s_pos (m_stream r)) (s_data (m_stream r))) = bs)"

text \<open>The Reader after \<open>n\<close> bytes were read successfully.\<close>

definition advance :: "nat \<Rightarrow> Reader \<Rightarrow> Reader" where
  "advance n r =
     r\<lparr>m_stream := (m_stream r)\<lparr>s_pos := s_pos (m_stream r) + n\<rparr>, m_offset := m_offset r + of_nat n\<rparr>"

text \<open>A call on a Writer leaves the output stream as it is, and the latch set.\<close>

definition writes_nothing :: "(Writer \<Rightarrow> Writer) \<Rightarrow> Writer \<Rightarrow> bool" where
  "writes_nothing f w = (w_stream (f w) = w_stream w \<and> w_badStream (f w))"

text \<open>The list \<open>[1, 2, 3]\<close> under token \<open>0x20\<close> (the example of \<^verbatim>\<open>FORMAT.md\<close>).\<close>

definition list_example :: Reader where
  "list_example = new_Reader [0xf8, 0x03, 0x20, 0x01, 0x01, 0x01, 0x02, 0x01, 0x03]"

text \<open>After \<^verbatim>\<open>GetToken()\<close> on the stream \<open>05 F8\<close>: the token 5 is decoded, the byte
  \<open>0xF8\<close> in the place of its length sets the latch.\<close>

definition bad_length_example :: Reader where
  "bad_length_example = snd (GetToken (new_Reader [0x05, 0xf8]))"

text \<open>A Writer that was given an element with the wrong token inside a container.\<close>

definition bad_writer_example :: Writer where
  "bad_writer_example = Put_uint8 0x21 1 0 (PutContainerElementCount 0x20 3 (new_Writer True))"

text \<open>After \<^verbatim>\<open>GetToken()\<close> on a record chunk of four payload bytes (two inner chunks),
  followed by a sibling chunk.\<close>

definition record_example :: Reader where
  "record_example = snd (GetToken (new_Reader [0x03, 0x04, 0x00, 0x01, 0x1b, 0x01, 0x07, 0x00]))"

text \<open>After \<^verbatim>\<open>GetToken()\<close> on a record chunk of three payload bytes whose inner
  chunk has \<open>0xF8\<close> as its length.\<close>

definition broken_record_example :: Reader where
  "broken_record_example = snd (GetToken (new_Reader [0x03, 0x03, 0x05, 0xf8, 0x00, 0x07, 0x00]))"

text \<open>An inner decoder that reads one token and returns.\<close>

definition inner_one_token :: "Reader \<Rightarrow> Reader" where
  "inner_one_token r = snd (GetToken r)"

text \<open>After \<^verbatim>\<open>GetToken()\<close> on the chunk \<open>05 00\<close>: token 5 with a payload of length
  zero.\<close>

definition zero_length_example :: Reader where
  "zero_length_example = snd (GetToken (new_Reader [0x05, 0x00]))"





text \<open>After \<^verbatim>\<open>GetToken()\<close> on the stream \<open>05 03 01\<close>: the chunk declares three payload
  bytes and one is left, so the latch is set while \<^verbatim>\<open>m_remainingInElement\<close> is 3.\<close>

definition short_payload_example :: Reader where
  "short_payload_example = snd (GetToken (new_Reader [0x05, 0x03, 0x01]))"

text \<open>A Writer that has opened a container of three elements under token \<open>0x20\<close>.\<close>

definition container_writer_example :: Writer where
  "container_writer_example = PutContainerElementCount 0x20 3 (new_Writer True)"









section \<open>Properties of the length encoding\<close>

lemma length_be_bytes [simp]: "length (be_bytes n v) = n"
  by (induction n arbitrary: v) auto

lemma be_bytes_2: "be_bytes 2 v = [ucast (drop_bit 8 v), ucast v]"
  by (simp add: numeral_2_eq_2)

lemma ucast_small_byte:
  fixes v :: u64
  shows "v < 0x80 \<Longrightarrow> (ucast v :: byte) < 0x80"
  by (simp add: word_less_nat_alt unsigned_ucast_eq take_bit_eq_mod)

lemma two_byte_first:
  fixes v :: u64
  assumes "\<not> v < 0x80" "v < 0x7800"
  shows "unat (ucast (drop_bit 8 ((ucast v :: u16) OR 0x8000)) :: byte) = (unat v + 32768) div 256"
proof -
  let ?y = "ucast v :: u16"
  have uy: "unat ?y = unat v"
    using assms by (simp add: unsigned_ucast_eq take_bit_eq_mod word_less_nat_alt)
  have "?y < 2 ^ 15" using uy assms by (simp add: word_less_nat_alt)
  then have "?y AND mask 15 = ?y" by (rule less_mask_eq)
  then have "?y AND 0x8000 = (?y AND mask 15) AND 0x8000" by simp
  also have "\<dots> = ?y AND (mask 15 AND 0x8000)" by (simp add: word_bw_assocs)
  also have "mask 15 AND (0x8000 :: u16) = 0" by (simp add: mask_eq_exp_minus_1)
  finally have z: "?y AND 0x8000 = 0" by simp
  have "?y OR 0x8000 = ?y + 0x8000" using z word_plus_and_or [of ?y "0x8000"] by simp
  moreover have "unat (?y + 0x8000) = unat ?y + 32768"
    using uy assms by (simp add: unat_word_ariths word_less_nat_alt)
  ultimately have "unat (?y OR 0x8000) = unat v + 32768" using uy by simp
  then show ?thesis using assms
    by (simp add: unsigned_ucast_eq take_bit_eq_mod unat_drop_bit_eq drop_bit_eq_div
        unat_div_distrib word_less_nat_alt)
qed

lemma from_be_Nil [simp]: "from_be [] = 0"
  by (simp add: from_be_def)

lemma from_be_snoc: "from_be (bs @ [b]) = push_bit 8 (from_be bs) OR ucast b"
  by (simp add: from_be_def)

lemma from_be_zero_Cons [simp]: "from_be (0 # bs) = from_be bs"
  by (simp add: from_be_def)

lemma from_be_single [simp]: "from_be [b] = ucast b"
  by (simp add: from_be_def)

lemma from_be_be_bytes: "(from_be (be_bytes n v) :: 'a::len word) = take_bit (8 * n) (v :: 'a word)"
proof (induction n arbitrary: v)
  case 0
  then show ?case by simp
next
  case (Suc n)
  have "(from_be (be_bytes (Suc n) v) :: 'a word) = push_bit 8 (take_bit (8 * n) (drop_bit 8 v)) OR ucast (ucast v :: byte)"
    by (simp add: from_be_snoc Suc)
  also have "\<dots> = take_bit (8 * Suc n) v"
    by (rule bit_eqI) (auto simp add: bit_simps)
  finally show ?case .
qed

lemma from_be_be_bytes_8 [simp]: "from_be (be_bytes 8 (v :: u64)) = v"
  by (simp add: from_be_be_bytes take_bit_word_eq_self)

lemma from_be_skip_leading_zeros [simp]: "from_be (skip_leading_zeros bs) = from_be bs"
  by (induction bs rule: skip_leading_zeros.induct) auto

lemma skip_leading_zeros_length: "length (skip_leading_zeros bs) \<le> length bs"
  by (induction bs rule: skip_leading_zeros.induct) auto

lemma skip_leading_zeros_Nil [simp]: "skip_leading_zeros bs = [] \<longleftrightarrow> bs = []"
  by (induction bs rule: skip_leading_zeros.induct) auto

lemma long_form_length:
  fixes v :: u64
  assumes "\<not> v < 0x7800"
  shows "2 \<le> length (skip_leading_zeros (be_bytes 8 v))" "length (skip_leading_zeros (be_bytes 8 v)) \<le> 8"
proof -
  let ?b = "skip_leading_zeros (be_bytes 8 v)"
  have v: "(from_be ?b :: u64) = v" by simp
  show "length ?b \<le> 8" using skip_leading_zeros_length [of "be_bytes 8 v"] by simp
  show "2 \<le> length ?b"
  proof (rule ccontr)
    assume "\<not> 2 \<le> length ?b"
    then have "length ?b = 0 \<or> length ?b = 1" by arith
    then consider "?b = []" | b where "?b = [b]"
      by (cases ?b) auto
    then have "v < 0x100"
    proof cases
      case 1
      with v show ?thesis by simp
    next
      case 2
      with v have "v = ucast b" by simp
      then show ?thesis using unsigned_less [of b, where ?'a = nat]
        by (simp add: word_less_nat_alt unsigned_ucast_eq take_bit_eq_mod)
    qed
    with assms show False by (simp add: word_less_nat_alt)
  qed
qed


lemma marked_len:
  assumes "2 \<le> n" "n \<le> 8"
  shows "unat ((of_nat n :: byte) + 0xf7) = n + 247"
proof -
  have "unat (of_nat n :: byte) = n" using assms by (simp add: unat_of_nat)
  then show ?thesis using assms by (simp add: unat_word_ariths)
qed

text \<open>
  Claim C8. For every 64-bit value \<open>v\<close>, the first byte that \<^verbatim>\<open>WriteLengthEncoded\<close>
  emits is never \<open>0xF8\<close>: the one-byte form is below \<open>0x80\<close>, the two-byte form
  (\<open>v < 0x7800\<close>) starts with a byte between \<open>0x80\<close> and \<open>0xF7\<close>, and the long form
  starts with \<open>0xF7 + n\<close> for \<open>n \<ge> 2\<close> following bytes, that is with \<open>0xF9..0xFF\<close>.
  (A Writer whose \<^verbatim>\<open>m_badStream\<close> is set emits nothing.)
\<close>

theorem WriteLengthEncoded_first_byte:
  assumes "\<not> w_badStream w"
  shows "let bs = emitted w (WriteLengthEncoded v w) in
     w_stream (WriteLengthEncoded v w) = w_stream w @ bs \<and> bs \<noteq> [] \<and> hd bs \<noteq> 0xf8 \<and>
     (v < 0x80 \<longrightarrow> length bs = 1 \<and> hd bs < 0x80) \<and>
     (\<not> v < 0x80 \<and> v < 0x7800 \<longrightarrow> length bs = 2 \<and> 0x80 \<le> hd bs \<and> hd bs \<le> 0xf7) \<and>
     (\<not> v < 0x7800 \<longrightarrow> 0xf9 \<le> hd bs \<and> 2 \<le> unat (hd bs - 0xf7) \<and>
        length bs = 1 + unat (hd bs - 0xf7))"
proof -
  consider (one) "v < 0x80" | (two) "\<not> v < 0x80" "v < 0x7800" | (many) "\<not> v < 0x7800"
    by blast
  then show ?thesis
  proof cases
    case one
    then have "(ucast v :: byte) < 0x80" by (rule ucast_small_byte)
    moreover from this have "(ucast v :: byte) \<noteq> 0xf8" by auto
    moreover have "v < 0x7800" using one by (simp add: word_less_nat_alt)
    ultimately show ?thesis using assms one
      by (simp add: WriteLengthEncoded_def emitted_def VERIFIED_WRITE_def)
  next
    case two
    let ?b = "ucast (drop_bit 8 ((ucast v :: u16) OR 0x8000)) :: byte"
    have u: "unat ?b = (unat v + 32768) div 256" using two by (rule two_byte_first)
    have r: "128 \<le> unat v" "unat v < 30720" using two by (simp_all add: word_less_nat_alt)
    have "128 \<le> unat ?b" "unat ?b \<le> 247" using u r by simp_all
    then have "0x80 \<le> ?b" "?b \<le> 0xf7" "?b \<noteq> 0xf8"
      by (auto simp add: word_le_nat_alt)
    then show ?thesis using assms two
      by (simp add: WriteLengthEncoded_def emitted_def VERIFIED_WRITE_def be_bytes_2)
  next
    case many
    let ?blk = "skip_leading_zeros (be_bytes 8 v)"
    let ?m = "(of_nat (length ?blk) :: byte) + 0xf7"
    have n: "2 \<le> length ?blk" "length ?blk \<le> 8" using many by (rule long_form_length)+
    then have m: "unat ?m = length ?blk + 247" by (rule marked_len)
    have "unat (?m - 0xf7) = length ?blk" using n by (simp add: unat_of_nat)
    moreover have "0xf9 \<le> ?m" "?m \<noteq> 0xf8" using m n by (auto simp add: word_le_nat_alt)
    moreover have "\<not> v < 0x80" using many by (simp add: word_less_nat_alt)
    ultimately show ?thesis using assms many n
      by (simp add: WriteLengthEncoded_def emitted_def VERIFIED_WRITE_def Let_def)
  qed
qed

theorem WriteLengthEncoded_first_byte_witness:
  "\<not> w_badStream (new_Writer True) \<and>
   emitted (new_Writer True) (WriteLengthEncoded 0x50000 (new_Writer True)) = [0xfa, 0x05, 0x00, 0x00] \<and>
   hd (emitted (new_Writer True) (WriteLengthEncoded 0x50000 (new_Writer True))) \<noteq> 0xf8"
proof -
  have nb: "\<not> w_badStream (new_Writer True)" by (simp add: new_Writer_def)
  have ev: "emitted (new_Writer True) (WriteLengthEncoded 0x50000 (new_Writer True)) = [0xfa, 0x05, 0x00, 0x00]"
    by code_simp
  show ?thesis
    using WriteLengthEncoded_first_byte [OF nb, of "0x50000"] nb ev by (simp add: Let_def)
qed

section \<open>Default trimming\<close>

lemma f32_ne_same: "\<not> f32_isnan v \<Longrightarrow> \<not> f32_ne v v"
  by (simp add: f32_ne_def)

lemma f64_ne_same: "\<not> f64_isnan v \<Longrightarrow> \<not> f64_ne v v"
  by (simp add: f64_ne_def)

text \<open>
  Claim C7, as amended. With \<^verbatim>\<open>trimDefaults\<close> set, \<^verbatim>\<open>Put(t, v, v)\<close> leaves the output
  stream unchanged and clears the pending token, for every token \<open>t\<close> and every value
  \<open>v\<close> of an integer type or \<^verbatim>\<open>bool\<close>, and for every \<^verbatim>\<open>float\<close> or \<^verbatim>\<open>double\<close> that
  is not a NaN. The only change to the Writer is \<^verbatim>\<open>m_nextToken\<close>.
\<close>

theorem Put_default_trimmed:
  assumes "w_trimDefaults w"
  shows "let w' = w\<lparr>w_nextToken := InvalidTokenValue\<rparr> in
     w_stream w' = w_stream w \<and> emitted w w' = [] \<and> w_nextToken w' = InvalidTokenValue \<and>
     Put_uint8 t a a w = w' \<and> Put_int8 t a a w = w' \<and> Put_bool t p p w = w' \<and>
     Put_uint16 t b b w = w' \<and> Put_int16 t b b w = w' \<and>
     Put_uint32 t c c w = w' \<and> Put_int32 t c c w = w' \<and>
     Put_uint64 t d d w = w' \<and> Put_int64 t d d w = w' \<and>
     (\<not> f32_isnan c \<longrightarrow> Put_float t c c w = w') \<and>
     (\<not> f64_isnan d \<longrightarrow> Put_double t d d w = w')"
  using assms
  by (simp add: Put_uint8_def Put_int8_def Put_bool_def Put_uint16_def Put_int16_def
      Put_uint32_def Put_int32_def Put_uint64_def Put_int64_def Put_float_def Put_double_def
      PUTNUMBER_def f32_ne_same f64_ne_same emitted_def)

theorem Put_default_trimmed_witness:
  "w_trimDefaults (new_Writer True) \<and> \<not> f32_isnan 0x3f800000 \<and> \<not> f64_isnan 0x4004000000000000 \<and>
   w_stream (Put_uint32 2 300 300 (new_Writer True)) = [] \<and>
   w_stream (Put_int16 2 0xff80 0xff80 (new_Writer True)) = [] \<and>
   w_stream (Put_float 2 0x3f800000 0x3f800000 (new_Writer True)) = [] \<and>
   w_stream (Put_double 2 0x4004000000000000 0x4004000000000000 (new_Writer True)) = []"
proof -
  have h: "w_trimDefaults (new_Writer True)" by (simp add: new_Writer_def)
  have n1: "\<not> f32_isnan 0x3f800000" by (simp add: f32_isnan_def)
  have n2: "\<not> f64_isnan 0x4004000000000000" by (simp add: f64_isnan_def)
  show ?thesis
    using Put_default_trimmed [OF h, of 2 0 False "0xff80" "0x3f800000" "0x4004000000000000"]
      Put_default_trimmed [OF h, of 2 0 False 0 300 0] h n1 n2
    by (simp add: Let_def new_Writer_def)
qed

text \<open>
  Claim C7 as stated fails for a NaN: \<^verbatim>\<open>value != defaultValue\<close> is true when both are
  the same NaN, so \<^verbatim>\<open>Put(1, NAN, NAN)\<close> on a fresh trimming Writer writes the chunk
  \<open>01 02 C0 7F\<close> (the quiet NaN \<open>0x7FC00000\<close>, low zero bytes trimmed).
\<close>

theorem Put_NaN_default_written:
  "w_trimDefaults (new_Writer True) \<and>
   emitted (new_Writer True) (Put_float 1 0x7fc00000 0x7fc00000 (new_Writer True))
     = [0x01, 0x02, 0xc0, 0x7f]"
  by code_simp

section \<open>Reading bytes that are there\<close>

lemma VERIFIED_READ_has:
  assumes "stream_has bs r" "n = length bs"
  shows "VERIFIED_READ n r = (bs, r\<lparr>m_stream := (m_stream r)\<lparr>s_pos := s_pos (m_stream r) + n\<rparr>\<rparr>)"
  using assms by (simp add: VERIFIED_READ_def stream_read_def stream_has_def)

lemma stream_has_append:
  "stream_has (xs @ ys) r \<longleftrightarrow> stream_has xs r \<and> stream_has ys (advance (length xs) r)"
proof -
  let ?l = "drop (s_pos (m_stream r)) (s_data (m_stream r))"
  have l: "length ?l = length (s_data (m_stream r)) - s_pos (m_stream r)" by simp
  have d: "drop (s_pos (m_stream r) + length xs) (s_data (m_stream r)) = drop (length xs) ?l"
    by (simp add: add.commute)
  have t: "take (length xs + length ys) ?l = take (length xs) ?l @ take (length ys) (drop (length xs) ?l)"
    by (rule take_add)
  show ?thesis
  proof (cases "s_pos (m_stream r) + length xs \<le> length (s_data (m_stream r))")
    case True
    then have "length (take (length xs) ?l) = length xs" by simp
    then have "take (length xs) ?l @ take (length ys) (drop (length xs) ?l) = xs @ ys
        \<longleftrightarrow> take (length xs) ?l = xs \<and> take (length ys) (drop (length xs) ?l) = ys"
      by (simp add: append_eq_append_conv)
    with t d show ?thesis
      by (auto simp add: stream_has_def advance_def add.assoc)
  next
    case False
    then show ?thesis by (auto simp add: stream_has_def advance_def)
  qed
qed

lemma stream_has_Cons:
  "stream_has (v # bs) r \<longleftrightarrow> stream_has [v] r \<and> stream_has bs (advance 1 r)"
proof -
  have "stream_has ([v] @ bs) r \<longleftrightarrow> stream_has [v] r \<and> stream_has bs (advance (length [v]) r)"
    by (rule stream_has_append)
  moreover have "[v] @ bs = v # bs" "length [v] = 1" by simp_all
  ultimately show ?thesis by (simp only:)
qed

lemma ReadLengthEncoded_first_has:
  assumes "stream_has (v # bs) r" "\<not> m_badStream r" "\<not> PastEOS 1 r"
  shows "ReadLengthEncoded_first r = Inr (v, advance 1 r)"
proof -
  from assms(1) have "stream_has [v] r" using stream_has_Cons [of v bs r] by blast
  then have "VERIFIED_READ 1 r = ([v], r\<lparr>m_stream := (m_stream r)\<lparr>s_pos := s_pos (m_stream r) + 1\<rparr>\<rparr>)"
    by (simp add: VERIFIED_READ_has)
  then show ?thesis using assms(2,3)
    by (simp add: ReadLengthEncoded_first_def advance_def)
qed

section \<open>The list escape\<close>

text \<open>
  Claim C2, as amended. The list escape is accepted where a \<^emph>\<open>token\<close> is decoded, not
  where a length is decoded. When the next byte is \<open>0xF8\<close>,
  \<^verbatim>\<open>ReadLengthEncoded(false)\<close> (\<^verbatim>\<open>DecodeLength\<close>) consumes the byte, sets
  \<^verbatim>\<open>m_badStream\<close> and returns 0, while \<^verbatim>\<open>ReadLengthEncoded(true)\<close> (\<^verbatim>\<open>DecodeToken\<close>)
  consumes the byte, decodes a varint with \<^verbatim>\<open>DecodeLength\<close> into
  \<^verbatim>\<open>m_nextContainerElementCount\<close> and then decodes the shared token with \<^verbatim>\<open>DecodeToken\<close>.
\<close>

theorem list_escape_only_for_token:
  assumes "stream_has [0xf8] r" "\<not> m_badStream r" "\<not> PastEOS 1 r"
  shows "ReadLengthEncoded False r = (0, (advance 1 r)\<lparr>m_badStream := True\<rparr>) \<and>
         ReadLengthEncoded True r =
           (let (n, r2) = ReadLengthEncoded False (advance 1 r)
            in ReadLengthEncoded True (r2\<lparr>m_nextContainerElementCount := n\<rparr>))"
proof -
  have "ReadLengthEncoded_first r = Inr (0xf8, advance 1 r)"
    using assms by (rule ReadLengthEncoded_first_has)
  then show ?thesis
    by (simp add: ReadLengthEncoded_def DecodeLength_def DecodeToken.simps [of r])
qed

theorem list_escape_only_for_token_witness:
  "stream_has [0xf8] list_example \<and> \<not> m_badStream list_example \<and> \<not> PastEOS 1 list_example \<and>
   m_badStream (snd (ReadLengthEncoded False list_example)) \<and>
   fst (ReadLengthEncoded True list_example) = 0x20 \<and>
   m_nextContainerElementCount (snd (ReadLengthEncoded True list_example)) = 3 \<and>
   m_offset (snd (ReadLengthEncoded True list_example)) = 3"
proof -
  have h: "stream_has [0xf8] list_example" "\<not> m_badStream list_example" "\<not> PastEOS 1 list_example"
    by code_simp+
  have e: "ReadLengthEncoded False (advance 1 list_example) = (3, advance 2 list_example)"
    by code_simp
  have f: "ReadLengthEncoded True ((advance 2 list_example)\<lparr>m_nextContainerElementCount := 3\<rparr>)
      = (0x20, (advance 3 list_example)\<lparr>m_nextContainerElementCount := 3\<rparr>)"
    by code_simp
  have g: "m_offset (advance 3 list_example) = 3" by code_simp
  show ?thesis
    using list_escape_only_for_token [OF h] h e f g by simp
qed

text \<open>
  Claim C2 as stated fails: decoding a \<^emph>\<open>length\<close> at the bytes \<open>F8 03 20 ...\<close> treats
  \<open>0xF8\<close> as an error. \<^verbatim>\<open>DecodeLength\<close> returns 0 with \<^verbatim>\<open>m_badStream\<close> set after one
  byte; no element count and no token are decoded.
\<close>

theorem length_position_rejects_list_escape:
  "m_badStream (snd (DecodeLength list_example)) \<and> fst (DecodeLength list_example) = 0 \<and>
   m_offset (snd (DecodeLength list_example)) = 1 \<and>
   m_nextContainerElementCount (snd (DecodeLength list_example)) = 0"
  by code_simp

section \<open>Push-back of the last token\<close>

lemma GetToken_length_returns:
  "fst (GetToken_length u r) \<noteq> InvalidTokenValue \<Longrightarrow>
   m_lastToken (snd (GetToken_length u r)) = fst (GetToken_length u r) \<and>
   \<not> m_badStream (snd (GetToken_length u r))"
  by (simp add: GetToken_length_def Let_def split_beta split: if_splits)

text \<open>The shapes of the result of \<open>GetToken\<close>.\<close>

lemma GetToken_cases:
  "fst (GetToken r) = InvalidTokenValue \<or>
   (\<not> m_badStream r \<and> GetToken r = (m_lastToken r, r\<lparr>m_tokenPushed := False\<rparr>)) \<or>
   (\<exists>u x. GetToken r = GetToken_length u x)"
proof (cases "m_badStream r \<or> m_tokenPushed r")
  case True
  then show ?thesis by (auto simp add: GetToken_def)
next
  case False
  define r1 where "r1 = (if m_remainingInElement r \<noteq> 0 then Skip r else r)"
  define r2 where "r2 = r1\<lparr>m_nextContainerElementCount := 0\<rparr>"
  define c where "c = m_context r2"
  have g: "GetToken r =
        (if m_remainingInElement r \<noteq> 0 \<and> EOS r1 then (InvalidTokenValue, r1)
        else
          if m_containerElementEnd c \<noteq> 0 \<and> m_containerElementEnd c = m_offset r2 then
            if PastEOS 1 r2 then (InvalidTokenValue, verify_failed r2)
            else
              let r3 = r2\<lparr>m_lastToken := m_containerToken c\<rparr>;
                  c1 = c\<lparr>m_containerElementIndex := m_containerElementIndex c + 1\<rparr>
              in
              if m_containerElementIndex c1 = m_containerElementCount c1 then
                GetToken_length False
                  (r3\<lparr>m_context := c1\<lparr>m_containerElementCount := 0, m_containerElementIndex := 0,
                                      m_containerElementEnd := 0,
                                      m_containerToken := InvalidTokenValue\<rparr>\<rparr>)
              else GetToken_length True (r3\<lparr>m_context := c1\<rparr>)
          else
            if PastEOS 2 r2 then (InvalidTokenValue, verify_failed r2)
            else
              let (t, r3) = DecodeToken r2;
                  r4 = r3\<lparr>m_lastToken := t\<rparr>
              in
              if m_nextContainerElementCount r4 > 1 then
                GetToken_length True
                  (r4\<lparr>m_context := (m_context r4)
                        \<lparr>m_containerToken := m_lastToken r4,
                         m_containerElementCount := m_nextContainerElementCount r4,
                         m_containerElementIndex := 1\<rparr>\<rparr>)
              else GetToken_length False r4)"
    using False unfolding GetToken_def r1_def r2_def c_def Let_def by simp
  define Q :: "u64 \<times> Reader \<Rightarrow> bool" where
    "Q x \<longleftrightarrow> fst x = InvalidTokenValue \<or> (\<exists>u y. x = GetToken_length u y)" for x
  have QI: "Q (InvalidTokenValue, y)" for y by (simp add: Q_def)
  have QL: "Q (GetToken_length u y)" for u y by (auto simp add: Q_def)
  have "Q (GetToken r)"
    unfolding g Let_def split_beta by (simp add: QI QL)
  then show ?thesis by (auto simp add: Q_def)
qed

lemma GetToken_returns:
  assumes "fst (GetToken r) \<noteq> InvalidTokenValue"
  shows "m_lastToken (snd (GetToken r)) = fst (GetToken r) \<and> \<not> m_badStream (snd (GetToken r))"
  using GetToken_cases [of r] assms GetToken_length_returns
  by (elim disjE) auto

text \<open>
  Claim C9, as amended. If \<^verbatim>\<open>m_badStream\<close> is not set, then after \<^verbatim>\<open>PushLastToken()\<close>
  the next \<^verbatim>\<open>GetToken()\<close> returns the stored \<^verbatim>\<open>m_lastToken\<close>, clears the push-back flag
  and changes nothing else: stream, offset, \<^verbatim>\<open>m_remainingInElement\<close> and the container
  bookkeeping are as before. The stored token is what the previous \<^verbatim>\<open>GetToken()\<close>
  returned whenever that call returned a token other than the invalid one.
\<close>

theorem GetToken_after_PushLastToken:
  "(\<not> m_badStream r \<longrightarrow>
      GetToken (PushLastToken r) = (m_lastToken r, r\<lparr>m_tokenPushed := False\<rparr>)) \<and>
   (fst (GetToken r0) \<noteq> InvalidTokenValue \<longrightarrow>
      GetToken (PushLastToken (snd (GetToken r0)))
        = (fst (GetToken r0), (snd (GetToken r0))\<lparr>m_tokenPushed := False\<rparr>))"
proof -
  have a: "GetToken (PushLastToken x) = (m_lastToken x, x\<lparr>m_tokenPushed := False\<rparr>)"
    if "\<not> m_badStream x" for x
    using that by (simp add: GetToken_def PushLastToken_def)
  show ?thesis using a [of r] a [of "snd (GetToken r0)"] GetToken_returns [of r0]
    by auto
qed

theorem GetToken_after_PushLastToken_witness:
  "\<not> m_badStream (snd (GetToken list_example)) \<and>
   fst (GetToken list_example) \<noteq> InvalidTokenValue \<and>
   GetToken (PushLastToken (snd (GetToken list_example))) = (0x20, snd (GetToken list_example))"
proof -
  have h: "\<not> m_badStream (snd (GetToken list_example))"
    "fst (GetToken list_example) \<noteq> InvalidTokenValue" by code_simp+
  have e: "fst (GetToken list_example) = 0x20" "\<not> m_tokenPushed (snd (GetToken list_example))"
    by code_simp+
  then have "(snd (GetToken list_example))\<lparr>m_tokenPushed := False\<rparr> = snd (GetToken list_example)"
    by simp
  then show ?thesis
    using GetToken_after_PushLastToken [of "snd (GetToken list_example)" list_example] h e
    by metis
qed

text \<open>
  Claim C9 as stated fails once the latch is set: \<^verbatim>\<open>GetToken()\<close> tests \<^verbatim>\<open>m_badStream\<close>
  before the push-back flag. After \<^verbatim>\<open>GetToken()\<close> on \<open>05 F8\<close> the stored token is 5 and
  the latch is set; \<^verbatim>\<open>PushLastToken()\<close> followed by \<^verbatim>\<open>GetToken()\<close> returns the invalid
  token and leaves the flag set.
\<close>

theorem GetToken_after_PushLastToken_bad:
  "m_badStream bad_length_example \<and> m_lastToken bad_length_example = 5 \<and>
   fst (GetToken (PushLastToken bad_length_example)) = InvalidTokenValue \<and>
   m_tokenPushed (snd (GetToken (PushLastToken bad_length_example)))"
  by code_simp

section \<open>The error latch\<close>

lemma WriteLengthEncoded_bad: "w_badStream w \<Longrightarrow> WriteLengthEncoded v w = w"
  by (simp add: WriteLengthEncoded_def)

lemma PutData_bad: "w_badStream w \<Longrightarrow> PutData t data z e w = w"
  by (simp add: PutData_def)

lemma PUTNUMBER_bad: "w_badStream w \<Longrightarrow> writes_nothing (PUTNUMBER t d conv e) w"
  by (simp add: PUTNUMBER_def PutData_bad writes_nothing_def)

lemma PutDataHeader_bad: "w_badStream w \<Longrightarrow> writes_nothing (PutDataHeader t len) w"
  by (simp add: PutDataHeader_def writes_nothing_def WriteLengthEncoded_bad Let_def)

lemma Put_cstr_bad: "w_badStream w \<Longrightarrow> writes_nothing (Put_cstr t str d) w"
  by (simp add: Put_cstr_def PutData_bad writes_nothing_def Let_def)

lemma VERIFIED_READ_bad: "m_badStream r \<Longrightarrow> m_badStream (snd (VERIFIED_READ n r))"
  by (simp add: VERIFIED_READ_def verify_failed_def split_beta Let_def)

lemma Fetch_bad: "m_badStream r \<Longrightarrow> m_badStream (snd (Fetch r))"
  by (simp add: Fetch_def split_beta VERIFIED_READ_bad)

lemma FetchPartial_bad: "m_badStream r \<Longrightarrow> m_badStream (snd (FetchPartial s oob r))"
  using Fetch_bad [of r] by (simp add: FetchPartial_def Let_def split_beta verify_failed_def)

lemma ReadLengthEncoded_first_bad:
  "m_badStream r \<Longrightarrow> \<exists>r'. ReadLengthEncoded_first r = Inl r' \<and> m_badStream r'"
  by (simp add: ReadLengthEncoded_first_def verify_failed_def)

lemma DecodeLength_bad: "m_badStream r \<Longrightarrow> m_badStream (snd (DecodeLength r))"
  using ReadLengthEncoded_first_bad [of r] by (auto simp add: DecodeLength_def)

lemma DecodeToken_bad: "m_badStream r \<Longrightarrow> m_badStream (snd (DecodeToken r))"
  using ReadLengthEncoded_first_bad [of r] by (auto simp add: DecodeToken.simps [of r])

lemma SkipBytes_bad: "m_badStream r \<Longrightarrow> m_badStream (SkipBytes n r)"
  by (simp add: SkipBytes_def Let_def)

lemma FetchPartial_bad_zero: "m_badStream r \<Longrightarrow> fst (FetchPartial s oob r) = 0"
  using Fetch_bad [of r] by (simp add: FetchPartial_def Let_def split_beta)

lemma DecodeLength_latched:
  "m_badStream r \<Longrightarrow> DecodeLength r = (0, if PastEOS 1 r then verify_failed r else r)"
  by (simp add: DecodeLength_def ReadLengthEncoded_first_def)

lemma DecodeToken_latched:
  "m_badStream r \<Longrightarrow> DecodeToken r = (0, if PastEOS 1 r then verify_failed r else r)"
  by (simp add: DecodeToken.simps [of r] ReadLengthEncoded_first_def)

lemma SkipBytes_latched:
  "m_badStream r \<Longrightarrow> SkipBytes n r = r\<lparr>m_tokenPushed := False, m_remainingInElement := 0\<rparr>"
  by (simp add: SkipBytes_def Let_def)

text \<open>
  Claim C4, as amended. Once \<^verbatim>\<open>m_badStream\<close> is set it stays set under every operation
  of the Reader and of the Writer. From then on
  \<^item> \<^verbatim>\<open>Reader::EOS()\<close> is true, and \<^verbatim>\<open>Reader::GetToken()\<close> returns the invalid token and
    leaves the Reader exactly as it was;
  \<^item> the decoder of lengths and tokens returns 0 and reads nothing: stream and offset
    are as before;
  \<^item> \<^verbatim>\<open>SkipBytes\<close>, \<^verbatim>\<open>Skip\<close> and the end of a \<^verbatim>\<open>SubStream\<close> scope move neither the stream
    nor the offset (they clear the push-back flag and the remaining count, and the
    scope restores the context);
  \<^item> the getters of two, four and eight bytes return 0, and \<^verbatim>\<open>GetString\<close> returns the
    empty string unless it throws;
  \<^item> a \<^verbatim>\<open>Put\<close> of the Writer that is entered with the latch set (and likewise
    \<^verbatim>\<open>PutContainerElementCount\<close>, \<^verbatim>\<open>PutData\<close>, \<^verbatim>\<open>PutDataHeader\<close>, \<^verbatim>\<open>WriteLengthEncoded\<close>)
    appends no byte to the output stream.
  Nothing is said of what \<^verbatim>\<open>Fetch\<close> does to the stream under the getters, nor of the
  rest of the \<^verbatim>\<open>Put\<close> that sets the latch.
\<close>

theorem bad_stream_latch:
  assumes "m_badStream r" "w_badStream w"
  shows "EOS r \<and> GetToken r = (InvalidTokenValue, r) \<and>
    m_badStream (snd (GetToken r)) \<and>
    fst (ReadLengthEncoded forToken r) = 0 \<and>
    m_stream (snd (ReadLengthEncoded forToken r)) = m_stream r \<and>
    m_offset (snd (ReadLengthEncoded forToken r)) = m_offset r \<and>
    m_badStream (snd (ReadLengthEncoded forToken r)) \<and>
    m_badStream (snd (Fetch r)) \<and>
    m_badStream (snd (GetUByte t0 r)) \<and> m_badStream (snd (GetByte t0 r)) \<and>
    m_badStream (snd (GetBool t0 r)) \<and>
    m_badStream (snd (GetWord oob r)) \<and> m_badStream (snd (GetUWord r)) \<and>
    m_badStream (snd (GetLong oob r)) \<and> m_badStream (snd (GetULong r)) \<and>
    m_badStream (snd (GetLongLong oob r)) \<and> m_badStream (snd (GetULongLong r)) \<and>
    fst (GetWord oob r) = 0 \<and> fst (GetUWord r) = 0 \<and>
    fst (GetLong oob r) = 0 \<and> fst (GetULong r) = 0 \<and>
    fst (GetLongLong oob r) = 0 \<and> fst (GetULongLong r) = 0 \<and>
    (GetString max_size r = Inl length_error \<or>
     (\<exists>r'. GetString max_size r = Inr ([], r') \<and> m_badStream r')) \<and>
    SkipBytes n r = r\<lparr>m_tokenPushed := False, m_remainingInElement := 0\<rparr> \<and>
    Skip r = r\<lparr>m_tokenPushed := False, m_remainingInElement := 0\<rparr> \<and>
    m_badStream (PushLastToken r) \<and>
    m_badStream (snd (SubStream_open r)) \<and>
    SubStream_close c r =
      r\<lparr>m_tokenPushed := False, m_remainingInElement := 0, m_context := c\<rparr> \<and>
    writes_nothing (Put_uint8 t a1 a2) w \<and> writes_nothing (Put_int8 t a1 a2) w \<and>
    writes_nothing (Put_bool t p1 p2) w \<and>
    writes_nothing (Put_uint16 t b1 b2) w \<and> writes_nothing (Put_int16 t b1 b2) w \<and>
    writes_nothing (Put_uint32 t c1 c2) w \<and> writes_nothing (Put_int32 t c1 c2) w \<and>
    writes_nothing (Put_uint64 t d1 d2) w \<and> writes_nothing (Put_int64 t d1 d2) w \<and>
    writes_nothing (Put_float t c1 c2) w \<and> writes_nothing (Put_double t d1 d2) w \<and>
    writes_nothing (Put_block t block) w \<and> writes_nothing (Put_cstr t str dflt) w \<and>
    writes_nothing (PutContainerElementCount t sz) w \<and>
    writes_nothing (PutData t block z e) w \<and> writes_nothing (PutDataHeader t len) w \<and>
    writes_nothing (WriteLengthEncoded v) w"
proof -
  have rd: "EOS r" "GetToken r = (InvalidTokenValue, r)" "m_badStream (snd (GetToken r))"
    using assms(1) by (simp_all add: EOS_def GetToken_def)
  have dec: "fst (ReadLengthEncoded forToken r) = 0"
    "m_stream (snd (ReadLengthEncoded forToken r)) = m_stream r"
    "m_offset (snd (ReadLengthEncoded forToken r)) = m_offset r"
    "m_badStream (snd (ReadLengthEncoded forToken r))"
    using assms(1)
    by (simp_all add: ReadLengthEncoded_def DecodeLength_latched DecodeToken_latched
        verify_failed_def)
  have fe: "m_badStream (snd (Fetch r))" using assms(1) by (rule Fetch_bad)
  have by1: "m_badStream (snd (GetUByte t0 r))" "m_badStream (snd (GetByte t0 r))"
    "m_badStream (snd (GetBool t0 r))"
    using fe by (simp_all add: GetUByte_def GetByte_def GetBool_def split_beta)
  have st: "GetString max_size r = Inl length_error \<or>
     (\<exists>r'. GetString max_size r = Inr ([], r') \<and> m_badStream r')"
    using fe assms(1) by (simp add: GetString_def split_beta)
  have fp: "m_badStream (snd (GetWord oob r))" "m_badStream (snd (GetUWord r))"
    "m_badStream (snd (GetLong oob r))" "m_badStream (snd (GetULong r))"
    "m_badStream (snd (GetLongLong oob r))" "m_badStream (snd (GetULongLong r))"
    using assms(1)
    by (simp_all add: GetWord_def GetUWord_def GetLong_def GetULong_def GetLongLong_def
        GetULongLong_def FetchPartial_bad)
  have fz: "fst (GetWord oob r) = 0" "fst (GetUWord r) = 0"
    "fst (GetLong oob r) = 0" "fst (GetULong r) = 0"
    "fst (GetLongLong oob r) = 0" "fst (GetULongLong r) = 0"
    using assms(1)
    by (simp_all add: GetWord_def GetUWord_def GetLong_def GetULong_def GetLongLong_def
        GetULongLong_def FetchPartial_bad_zero)
  have sk: "SkipBytes n r = r\<lparr>m_tokenPushed := False, m_remainingInElement := 0\<rparr>"
    "Skip r = r\<lparr>m_tokenPushed := False, m_remainingInElement := 0\<rparr>"
    "m_badStream (PushLastToken r)" "m_badStream (snd (SubStream_open r))"
    "SubStream_close c r =
       r\<lparr>m_tokenPushed := False, m_remainingInElement := 0, m_context := c\<rparr>"
    using assms(1)
    by (simp_all add: Skip_def SkipBytes_latched PushLastToken_def SubStream_open_def
        SubStream_close_def)
  have num: "writes_nothing (Put_uint8 t a1 a2) w" "writes_nothing (Put_int8 t a1 a2) w"
    "writes_nothing (Put_bool t p1 p2) w"
    "writes_nothing (Put_uint16 t b1 b2) w" "writes_nothing (Put_int16 t b1 b2) w"
    "writes_nothing (Put_uint32 t c1 c2) w" "writes_nothing (Put_int32 t c1 c2) w"
    "writes_nothing (Put_uint64 t d1 d2) w" "writes_nothing (Put_int64 t d1 d2) w"
    "writes_nothing (Put_float t c1 c2) w" "writes_nothing (Put_double t d1 d2) w"
    using assms(2)
    by (simp_all add: Put_uint8_def Put_int8_def Put_bool_def Put_uint16_def Put_int16_def
        Put_uint32_def Put_int32_def Put_uint64_def Put_int64_def Put_float_def Put_double_def
        PUTNUMBER_bad)
  have oth: "writes_nothing (Put_block t block) w" "writes_nothing (Put_cstr t str dflt) w"
    "writes_nothing (PutContainerElementCount t sz) w"
    "writes_nothing (PutData t block z e) w" "writes_nothing (PutDataHeader t len) w"
    "writes_nothing (WriteLengthEncoded v) w"
    using assms(2) Put_cstr_bad [of w t str dflt] PutDataHeader_bad [of w t len]
    by (simp_all add: Put_block_def PutContainerElementCount_def PutData_bad
        WriteLengthEncoded_bad writes_nothing_def)
  show ?thesis
    using rd dec fe by1 st fp fz sk num oth by simp
qed

theorem bad_stream_latch_witness:
  "m_badStream bad_length_example \<and> w_badStream bad_writer_example \<and>
   EOS bad_length_example \<and>
   GetToken bad_length_example = (InvalidTokenValue, bad_length_example) \<and>
   fst (GetULong bad_length_example) = 0 \<and>
   w_stream (Put_uint32 0x20 300 0 bad_writer_example) = w_stream bad_writer_example \<and>
   w_badStream (Put_uint32 0x20 300 0 bad_writer_example)"
proof -
  have h: "m_badStream bad_length_example" "w_badStream bad_writer_example" by code_simp+
  show ?thesis
    using bad_stream_latch [OF h, where t = "0x20" and ?c1.0 = 300 and ?c2.0 = 0] h
    by (simp add: writes_nothing_def)
qed

text \<open>
  As claim C4 is worded, every operation of the Reader and of the Writer is inert once
  the latch is set. \<^verbatim>\<open>Reader::Fetch\<close> does not test \<^verbatim>\<open>m_badStream\<close>: on the stream
  \<open>05 03 01\<close> the latch is set by \<^verbatim>\<open>GetToken()\<close> with three bytes remaining, and
  \<^verbatim>\<open>GetUByte()\<close> then reads the byte \<open>01\<close>, returns it and moves the offset from 2 to 5
  and the stream from 2 to 3. In the Writer, the \<^verbatim>\<open>Put\<close> of an element with the wrong
  token sets the latch in \<^verbatim>\<open>PutDataHeader\<close>, and \<^verbatim>\<open>PutData\<close> goes on to append the
  payload \<open>01\<close>.
\<close>

theorem latched_getter_consumes_input:
  "m_badStream short_payload_example \<and>
   m_offset short_payload_example = 2 \<and>
   s_pos (m_stream short_payload_example) = 2 \<and>
   fst (GetUByte 0 short_payload_example) = 1 \<and>
   m_offset (snd (GetUByte 0 short_payload_example)) = 5 \<and>
   s_pos (m_stream (snd (GetUByte 0 short_payload_example))) = 3 \<and>
   \<not> w_badStream container_writer_example \<and>
   w_stream container_writer_example = [0xf8, 0x03] \<and>
   w_badStream (Put_uint8 0x21 1 0 container_writer_example) \<and>
   w_stream (Put_uint8 0x21 1 0 container_writer_example) = [0xf8, 0x03, 0x01]"
  by code_simp

section \<open>Sub-stream scopes\<close>

lemma SkipBytes_offset:
  "\<not> m_badStream r \<Longrightarrow> m_offset (SkipBytes (e - m_offset r) r) = e"
  by (simp add: SkipBytes_def Let_def)

lemma SkipBytes_offset_bad:
  "m_badStream r \<Longrightarrow> m_offset (SkipBytes n r) = m_offset r"
  by (simp add: SkipBytes_def Let_def)

text \<open>
  Claim C3, as amended. For every Reader \<open>r\<close> and every inner decoder \<open>inner\<close> run
  inside a \<^verbatim>\<open>SubStream\<close> scope: the constructor saves the context and sets the end of
  the sub-stream to \<^verbatim>\<open>m_offset + m_remainingInElement\<close>; the destructor always restores
  the saved context (so a scope nested in \<open>inner\<close> leaves the end of the enclosing scope
  in place); and if \<^verbatim>\<open>m_badStream\<close> is not set when the scope is destroyed, the offset
  then equals the declared end, whether \<open>inner\<close> stopped before it or went past it (the
  \<^verbatim>\<open>size_t\<close> difference wraps). If \<^verbatim>\<open>m_badStream\<close> is set, \<^verbatim>\<open>SkipBytes\<close> returns early and
  the offset stays where \<open>inner\<close> left it.
\<close>

theorem SubStream_scope:
  "let (oldContext, r1) = SubStream_open r;
       r2 = inner r1;
       r3 = SubStream_close oldContext r2
   in with_SubStream inner r = r3 \<and>
      oldContext = m_context r \<and>
      m_end (m_context r1) = m_offset r + m_remainingInElement r \<and>
      m_context r3 = m_context r \<and>
      (\<not> m_badStream r2 \<and> m_end (m_context r2) = m_end (m_context r1)
         \<longrightarrow> m_offset r3 = m_offset r + m_remainingInElement r) \<and>
      (m_badStream r2 \<longrightarrow> m_offset r3 = m_offset r2 \<and> m_badStream r3)"
  by (simp add: SubStream_open_def SubStream_close_def with_SubStream_def new_SubStreamContext_def
      SkipBytes_offset SkipBytes_offset_bad SkipBytes_bad Let_def)

theorem SubStream_scope_witness:
  "\<not> m_badStream (inner_one_token (snd (SubStream_open record_example))) \<and>
   m_end (m_context (inner_one_token (snd (SubStream_open record_example))))
     = m_end (m_context (snd (SubStream_open record_example))) \<and>
   m_offset (inner_one_token (snd (SubStream_open record_example))) = 4 \<and>
   m_offset record_example + m_remainingInElement record_example = 6 \<and>
   m_offset (with_SubStream inner_one_token record_example) = 6 \<and>
   m_context (with_SubStream inner_one_token record_example) = m_context record_example"
proof -
  have h: "\<not> m_badStream (inner_one_token (snd (SubStream_open record_example)))"
    "m_end (m_context (inner_one_token (snd (SubStream_open record_example))))
       = m_end (m_context (snd (SubStream_open record_example)))"
    by code_simp+
  have e: "m_offset (inner_one_token (snd (SubStream_open record_example))) = 4"
    "m_offset record_example + m_remainingInElement record_example = 6"
    by code_simp+
  show ?thesis
    using SubStream_scope [of record_example inner_one_token] h e
    by (auto simp add: split_beta Let_def)
qed

text \<open>
  Claim C3 as stated fails on the exit path of a decode error. The record chunk
  \<open>03 03 | 05 F8 00\<close> declares its end at offset 5; the inner \<^verbatim>\<open>GetToken()\<close> sets the
  latch at offset 4, and the destructor leaves the offset at 4.
\<close>

theorem SubStream_close_after_error:
  "m_offset broken_record_example + m_remainingInElement broken_record_example = 5 \<and>
   m_badStream (inner_one_token (snd (SubStream_open broken_record_example))) \<and>
   m_offset (with_SubStream inner_one_token broken_record_example) = 4"
  by code_simp

section \<open>Payloads of length zero\<close>

text \<open>
  Claim C6 says that a payload of length zero reads as 0 for every numeric destination,
  \<^verbatim>\<open>GetByte\<close>, \<^verbatim>\<open>GetUByte\<close> and \<^verbatim>\<open>GetBool\<close> included, and as the empty string. The
  code does so for the unsigned getters built on \<^verbatim>\<open>FetchPartial\<close> and for strings. It
  does not for the one-byte getters, which return their uninitialised local \<open>t\<close>
  (here it held \<open>0x2A\<close>, and \<open>0x01\<close> for \<^verbatim>\<open>GetBool\<close>), nor for the signed getters, where
  \<^verbatim>\<open>FetchPartial(true)\<close> tests the sign bit of the byte behind \<open>result\<close> (here \<open>0x80\<close>)
  and fills the result with \<open>0xFF\<close>. The theorem evaluates the getters on the chunk
  \<open>05 00\<close>.
\<close>

theorem zero_length_payload_getters:
  "m_lastToken zero_length_example = 5 \<and>
   m_remainingInElement zero_length_example = 0 \<and> \<not> m_badStream zero_length_example \<and>
   fst (GetUByte 0x2a zero_length_example) = 0x2a \<and>
   fst (GetByte 0x2a zero_length_example) = 0x2a \<and>
   fst (GetBool 0x01 zero_length_example) = True \<and>
   fst (GetWord 0x80 zero_length_example) = 0xffff \<and>
   fst (GetLong 0x80 zero_length_example) = 0xffffffff \<and>
   fst (GetLongLong 0x80 zero_length_example) = 0xffffffffffffffff \<and>
   fst (GetUWord zero_length_example) = 0 \<and>
   fst (GetULong zero_length_example) = 0 \<and>
   fst (GetULongLong zero_length_example) = 0 \<and>
   fst (GetWord 0x00 zero_length_example) = 0 \<and>
   GetString max_size zero_length_example = Inr ([], zero_length_example)"
  by code_simp

section \<open>The length encoding round trip\<close>

lemma bit_int_consts:
  "bit (32768 :: int) n \<longleftrightarrow> n = 15"
  "bit (128 :: int) n \<longleftrightarrow> n = 7"
  "bit (127 :: int) n \<longleftrightarrow> n < 7"
proof -
  have "(32768 :: int) = 2 ^ 15" "(128 :: int) = 2 ^ 7" "(127 :: int) = mask 7"
    by (simp_all add: mask_eq_exp_minus_1)
  then show "bit (32768 :: int) n \<longleftrightarrow> n = 15" "bit (128 :: int) n \<longleftrightarrow> n = 7"
    "bit (127 :: int) n \<longleftrightarrow> n < 7"
    by (simp_all only: bit_exp_iff bit_mask_iff) (auto simp add: possible_bit_def)
qed

lemma two_byte_decode:
  fixes y :: u16
  shows "push_bit 8 (ucast ((ucast (drop_bit 8 (y OR 0x8000)) :: byte) AND 0x7f) :: u16)
           OR ucast (ucast (y OR 0x8000) :: byte) = take_bit 15 y"
  by (rule bit_eqI) (auto simp add: bit_simps bit_int_consts)

lemma two_byte_value:
  fixes v :: u64
  assumes "v < 0x7800"
  shows "(ucast (take_bit 15 (ucast v :: u16)) :: u64) = v"
proof -
  have "v < 2 ^ 15" using assms by (simp add: word_less_nat_alt)
  then have "v AND mask 15 = v" by (rule less_mask_eq)
  then have v: "take_bit 15 v = v" by (simp add: take_bit_eq_mask)
  have "(ucast (take_bit 15 (ucast v :: u16)) :: u64) = take_bit 15 v"
    by (rule bit_eqI) (auto simp add: bit_simps)
  with v show ?thesis by simp
qed

lemma from_be_zeros [simp]: "from_be (replicate k 0 @ bs) = from_be bs"
  by (induction k) simp_all

lemma no_PastEOS:
  assumes "m_end (m_context r) = 0 \<or> unat (m_offset r) + j + k \<le> unat (m_end (m_context r))"
  shows "\<not> PastEOS (of_nat k) (advance j r)"
proof (cases "m_end (m_context r) = 0")
  case True
  then show ?thesis by (simp add: PastEOS_def advance_def)
next
  case False
  with assms have le: "unat (m_offset r) + j + k \<le> unat (m_end (m_context r))" by simp
  have "unat (m_end (m_context r)) < 2 ^ 64"
    using unsigned_less [of "m_end (m_context r)", where ?'a = nat] by simp
  with le have lt: "unat (m_offset r) + j + k < 2 ^ 64" by simp
  have "unat (m_offset r + of_nat j + of_nat k :: u64) = unat (m_offset r) + j + k"
    using lt by (simp add: unat_word_ariths unat_of_nat)
  with le show ?thesis
    by (simp add: PastEOS_def advance_def word_less_nat_alt)
qed


lemma advance_advance: "advance m (advance n r) = advance (n + m) r"
  by (simp add: advance_def add.assoc)

lemma advance_fields [simp]:
  "m_badStream (advance n r) = m_badStream r"
  "m_context (advance n r) = m_context r"
  "m_remainingInElement (advance n r) = m_remainingInElement r"
  "m_offset (advance n r) = m_offset r + of_nat n"
  by (simp_all add: advance_def)

lemma VERIFIED_READ_advance:
  assumes "stream_has bs r" "n = length bs"
  shows "VERIFIED_READ n r = (bs, (advance n r)\<lparr>m_offset := m_offset r\<rparr>)"
  using assms by (simp add: VERIFIED_READ_has advance_def)

lemma ReadLengthEncoded_plain:
  assumes "ReadLengthEncoded_first r = Inr (b, r1)" "b \<noteq> 0xf8"
  shows "ReadLengthEncoded forToken r = ReadLengthEncoded_rest b r1"
  using assms by (simp add: ReadLengthEncoded_def DecodeLength_def DecodeToken.simps [of r])

lemma skip_leading_zeros_suffix:
  "skip_leading_zeros xs = drop (length xs - length (skip_leading_zeros xs)) xs"
proof (induction xs rule: skip_leading_zeros.induct)
  case (1 b c bs)
  show ?case
  proof (cases "b = 0")
    case True
    let ?k = "length (skip_leading_zeros (c # bs))"
    have "?k \<le> length (c # bs)" by (rule skip_leading_zeros_length)
    then have "length (b # c # bs) - ?k = Suc (length (c # bs) - ?k)" by simp
    then have "drop (length (b # c # bs) - ?k) (b # c # bs) = drop (length (c # bs) - ?k) (c # bs)"
      by simp
    with 1 True show ?thesis by simp
  next
    case False
    then show ?thesis by simp
  qed
qed simp_all

lemma skip_leading_zeros_hd:
  "2 \<le> length (skip_leading_zeros xs) \<Longrightarrow> hd (skip_leading_zeros xs) \<noteq> 0"
  by (induction xs rule: skip_leading_zeros.induct) auto

lemma be_bytes_drop: "n \<le> m \<Longrightarrow> drop (m - n) (be_bytes m v) = be_bytes n v"
proof (induction n arbitrary: m v)
  case 0
  then show ?case by simp
next
  case (Suc n)
  then obtain m' where m: "m = Suc m'" "n \<le> m'" by (cases m) auto
  with Suc.IH [of m' "drop_bit 8 v"] show ?case by simp
qed


lemma advance_0 [simp]: "advance 0 r = r"
  by (simp add: advance_def)

lemma PastEOS_remaining [simp]:
  "PastEOS k (r\<lparr>m_remainingInElement := x\<rparr>) = PastEOS k r"
  by (simp add: PastEOS_def)

lemma stream_has_remaining [simp]:
  "stream_has bs (r\<lparr>m_remainingInElement := x\<rparr>) = stream_has bs r"
  by (simp add: stream_has_def)

lemma decode_one_byte:
  assumes "stream_has [b] r" "\<not> m_badStream r" "\<not> PastEOS 1 r" "b < 0x80"
  shows "ReadLengthEncoded forToken r = (ucast b, advance 1 r)"
proof -
  have "ReadLengthEncoded_first r = Inr (b, advance 1 r)"
    using assms(1-3) by (rule ReadLengthEncoded_first_has)
  moreover have "b \<noteq> 0xf8" using assms(4) by auto
  ultimately have "ReadLengthEncoded forToken r = ReadLengthEncoded_rest b (advance 1 r)"
    by (rule ReadLengthEncoded_plain)
  then show ?thesis using assms(4) by (simp add: ReadLengthEncoded_rest_def)
qed

lemma decode_two_bytes:
  assumes "stream_has [b1, b2] r" "\<not> m_badStream r"
    and room: "m_end (m_context r) = 0 \<or> unat (m_offset r) + 2 \<le> unat (m_end (m_context r))"
    and b1: "\<not> b1 < 0x80" "b1 < 0xf8"
  shows "ReadLengthEncoded forToken r
           = (ucast (push_bit 8 (ucast (b1 AND 0x7f) :: u16) OR ucast b2), advance 2 r)"
proof -
  have p0: "\<not> PastEOS 1 r" using no_PastEOS [of r 0 1] room by auto
  have p1: "\<not> PastEOS 1 (advance 1 r)" using no_PastEOS [of r 1 1] room by auto
  have h2: "stream_has [b2] (advance 1 r)"
    using assms(1) stream_has_Cons [of b1 "[b2]" r] by blast
  have "ReadLengthEncoded_first r = Inr (b1, advance 1 r)"
    using assms(1,2) p0 by (rule ReadLengthEncoded_first_has)
  moreover have "b1 \<noteq> 0xf8" using b1(2) by auto
  ultimately have "ReadLengthEncoded forToken r = ReadLengthEncoded_rest b1 (advance 1 r)"
    by (rule ReadLengthEncoded_plain)
  moreover have "VERIFIED_READ 1 (advance 1 r)
      = ([b2], (advance 1 (advance 1 r))\<lparr>m_offset := m_offset (advance 1 r)\<rparr>)"
    using h2 by (simp add: VERIFIED_READ_advance)
  ultimately show ?thesis using b1 p1 assms(2)
    by (simp add: ReadLengthEncoded_rest_def advance_def)
qed

lemma unat_of_nat_small:
  "n \<le> 8 \<Longrightarrow> unat (of_nat n :: u64) = n" "n \<le> 8 \<Longrightarrow> unat (of_nat n :: byte) = n"
  by (simp_all add: unat_of_nat)

lemma decode_long_form:
  assumes has: "stream_has (m # blk) r" and nb: "\<not> m_badStream r"
    and room: "m_end (m_context r) = 0 \<or> unat (m_offset r) + Suc n \<le> unat (m_end (m_context r))"
    and n: "n = length blk" "2 \<le> n" "n \<le> 8"
    and m: "m = of_nat n + 0xf7"
  shows "(ReadLengthEncoded forToken r :: u64 \<times> Reader)
           = (from_be blk, (advance (Suc n) r)\<lparr>m_remainingInElement := 0\<rparr>)"
proof -
  have um: "unat m = n + 247" unfolding m using n(2,3) by (rule marked_len)
  then have mb: "\<not> m < 0x80" "\<not> m < 0xf8" "m \<noteq> 0xf8"
    using n(2) by (auto simp add: word_less_nat_alt)
  have "unat (ucast (m - 0xf7) :: u64) = n"
    using n(3) by (simp add: m unsigned_ucast_eq unat_of_nat_small take_bit_eq_mod)
  then have len: "(ucast (m - 0xf7) :: u64) = of_nat n"
    using n(3) by (simp add: word_unat_eq_iff unat_of_nat_small)
  have p0: "\<not> PastEOS 1 r" using no_PastEOS [of r 0 1] room by auto
  have p1: "\<not> PastEOS (of_nat n) (advance 1 r)" using no_PastEOS [of r 1 n] room by auto
  have h2: "stream_has blk (advance 1 r)"
    using has stream_has_Cons [of m blk r] by blast
  let ?r1 = "(advance 1 r)\<lparr>m_remainingInElement := of_nat n\<rparr>"
  have "ReadLengthEncoded_first r = Inr (m, advance 1 r)"
    using has nb p0 by (rule ReadLengthEncoded_first_has)
  then have "ReadLengthEncoded forToken r = ReadLengthEncoded_rest m (advance 1 r)"
    using mb(3) by (rule ReadLengthEncoded_plain)
  then have a: "ReadLengthEncoded forToken r = FetchPartial False 0 ?r1"
    using mb p1 by (simp add: ReadLengthEncoded_rest_def len Let_def)
  have rd: "VERIFIED_READ n ?r1 = (blk, (advance n ?r1)\<lparr>m_offset := m_offset ?r1\<rparr>)"
    using h2 n(1) by (simp add: VERIFIED_READ_advance)
  have ne: "(of_nat n :: u64) \<noteq> 0"
    using n(2,3) by (simp add: word_unat_eq_iff unat_of_nat_small)
  have fe: "Fetch ?r1 = (blk, (advance (Suc n) r)\<lparr>m_remainingInElement := 0\<rparr>)"
    using rd ne n(3) by (simp add: Fetch_def unat_of_nat_small advance_def add.assoc)
  have le: "(of_nat n :: u64) \<le> of_nat (LENGTH(64) div 8)"
    using n(3) by (simp add: word_le_nat_alt unat_of_nat_small)
  have "(FetchPartial False 0 ?r1 :: u64 \<times> Reader)
      = (from_be (replicate (8 - n) 0 @ blk), (advance (Suc n) r)\<lparr>m_remainingInElement := 0\<rparr>)"
    using fe le nb n(3) by (simp add: FetchPartial_def Let_def unat_of_nat_small)
  with a show ?thesis by simp
qed


lemma WriteLengthEncoded_emitted:
  assumes "\<not> w_badStream w"
  shows "emitted w (WriteLengthEncoded v w) =
     (if v < 0x80 then [ucast v]
      else if v < 0x7800 then be_bytes 2 ((ucast v :: u16) OR 0x8000)
      else ((of_nat (length (skip_leading_zeros (be_bytes 8 v))) :: byte) + 0xf7)
             # skip_leading_zeros (be_bytes 8 v))"
  using assms by (simp add: WriteLengthEncoded_def emitted_def VERIFIED_WRITE_def Let_def)

lemma ucast_byte_back:
  fixes v :: u64
  assumes "v < 0x80"
  shows "(ucast (ucast v :: byte) :: u64) = v"
proof -
  have "unat v < 128" using assms by (simp add: word_less_nat_alt)
  then have "unat (ucast (ucast v :: byte) :: u64) = unat v"
    by (simp add: unsigned_ucast_eq take_bit_eq_mod unat_mod_distrib)
  then show ?thesis by (simp add: word_unat_eq_iff)
qed

text \<open>
  Claim C1. Let \<open>bs\<close> be the bytes that \<^verbatim>\<open>WriteLengthEncoded(v)\<close> appends (the Writer's
  latch is clear), and let a Reader whose latch is clear find \<open>bs\<close> at its position, with
  room for them before the end of its context. Then \<^verbatim>\<open>ReadLengthEncoded\<close> (for a token
  and for a length alike) returns exactly \<open>v\<close> and consumes exactly \<open>bs\<close>: the stream
  position and the offset advance by \<open>length bs\<close> and nothing else changes, except that
  the long form leaves \<^verbatim>\<open>m_remainingInElement\<close> at 0. The bytes are: one byte \<open>v\<close> for
  \<open>v < 0x80\<close>; the two big-endian bytes of \<open>0x8000 | v\<close> for \<open>v < 0x7800\<close>; otherwise
  the prefix \<open>0xF7 + n\<close> and the \<open>n\<close> low big-endian bytes of \<open>v\<close>, \<open>2 \<le> n \<le> 8\<close>, the
  first of them not zero.
\<close>

theorem length_encoding_roundtrip:
  assumes w: "\<not> w_badStream w" and bs: "bs = emitted w (WriteLengthEncoded v w)"
    and has: "stream_has bs r" and nb: "\<not> m_badStream r"
    and room: "m_end (m_context r) = 0 \<or> unat (m_offset r) + length bs \<le> unat (m_end (m_context r))"
  shows "ReadLengthEncoded forToken r =
           (v, if v < 0x7800 then advance (length bs) r
               else (advance (length bs) r)\<lparr>m_remainingInElement := 0\<rparr>) \<and>
     (v < 0x80 \<longrightarrow> bs = [ucast v]) \<and>
     (\<not> v < 0x80 \<and> v < 0x7800 \<longrightarrow> bs = be_bytes 2 ((ucast v :: u16) OR 0x8000)) \<and>
     (\<not> v < 0x7800 \<longrightarrow>
        (let n = length bs - 1
         in 2 \<le> n \<and> n \<le> 8 \<and> bs = (0xf7 + of_nat n) # be_bytes n v \<and> hd (be_bytes n v) \<noteq> 0))"
proof -
  note e = WriteLengthEncoded_emitted [OF w, of v, folded bs]
  consider (one) "v < 0x80" | (two) "\<not> v < 0x80" "v < 0x7800" | (many) "\<not> v < 0x7800"
    by blast
  then show ?thesis
  proof cases
    case one
    then have b: "bs = [ucast v]" using e by simp
    have lt: "v < 0x7800" using one by (simp add: word_less_nat_alt)
    have p0: "\<not> PastEOS 1 r" using no_PastEOS [of r 0 1] room b by auto
    have "ReadLengthEncoded forToken r = (ucast (ucast v :: byte), advance 1 r)"
      using has nb p0 ucast_small_byte [OF one] unfolding b by (rule decode_one_byte)
    then show ?thesis using one lt b by (simp add: ucast_byte_back)
  next
    case two
    let ?y = "(ucast v :: u16) OR 0x8000"
    let ?b1 = "ucast (drop_bit 8 ?y) :: byte"
    let ?b2 = "ucast ?y :: byte"
    have b: "bs = [?b1, ?b2]" using two e by (simp add: be_bytes_2)
    have u: "unat ?b1 = (unat v + 32768) div 256" using two by (rule two_byte_first)
    have rg: "128 \<le> unat v" "unat v < 30720" using two by (simp_all add: word_less_nat_alt)
    have "128 \<le> unat ?b1" "unat ?b1 \<le> 247" using u rg by simp_all
    then have b1: "\<not> ?b1 < 0x80" "?b1 < 0xf8" by (auto simp add: word_less_nat_alt)
    have rm: "m_end (m_context r) = 0 \<or> unat (m_offset r) + 2 \<le> unat (m_end (m_context r))"
      using room b by simp
    have "ReadLengthEncoded forToken r
        = (ucast (push_bit 8 (ucast (?b1 AND 0x7f) :: u16) OR ucast ?b2), advance 2 r)"
      using has nb rm b1 unfolding b by (rule decode_two_bytes)
    moreover have "(ucast (push_bit 8 (ucast (?b1 AND 0x7f) :: u16) OR ucast ?b2) :: u64) = v"
      using two_byte_value [OF two(2)] by (simp only: two_byte_decode)
    ultimately have "ReadLengthEncoded forToken r = (v, advance 2 r)"
      by (simp only:)
    moreover have c2: "bs = be_bytes 2 ((ucast v :: u16) OR 0x8000)" using two e by simp
    moreover from c2 have "length bs = 2" by simp
    ultimately show ?thesis using two by simp
  next
    case many
    let ?blk = "skip_leading_zeros (be_bytes 8 v)"
    let ?n = "length ?blk"
    have n: "2 \<le> ?n" "?n \<le> 8" using many by (rule long_form_length)+
    have lt: "\<not> v < 0x80" using many by (simp add: word_less_nat_alt)
    have b: "bs = ((of_nat ?n :: byte) + 0xf7) # ?blk" using many lt e by simp
    have rm: "m_end (m_context r) = 0 \<or> unat (m_offset r) + Suc ?n \<le> unat (m_end (m_context r))"
      using room b by simp
    have "(ReadLengthEncoded forToken r :: u64 \<times> Reader)
        = (from_be ?blk, (advance (Suc ?n) r)\<lparr>m_remainingInElement := 0\<rparr>)"
      using has nb rm refl n refl unfolding b by (rule decode_long_form)
    then have d: "ReadLengthEncoded forToken r = (v, (advance (Suc ?n) r)\<lparr>m_remainingInElement := 0\<rparr>)"
      by simp
    have "?blk = drop (8 - ?n) (be_bytes 8 v)"
      using skip_leading_zeros_suffix [of "be_bytes 8 v"] by simp
    also have "\<dots> = be_bytes ?n v" using n(2) by (rule be_bytes_drop)
    finally have blk: "?blk = be_bytes ?n v" .
    have hd: "hd ?blk \<noteq> 0" using n(1) by (rule skip_leading_zeros_hd)
    have "bs = (0xf7 + of_nat ?n) # be_bytes ?n v" using b blk by (simp add: add.commute)
    moreover have "hd (be_bytes ?n v) \<noteq> 0" using hd blk by simp
    moreover have "length bs - 1 = ?n" using b by simp
    ultimately show ?thesis using many lt d n by (simp add: Let_def)
  qed
qed

theorem length_encoding_roundtrip_witness:
  "\<not> w_badStream (new_Writer True) \<and>
   emitted (new_Writer True) (WriteLengthEncoded 0x50000 (new_Writer True)) = [0xfa, 0x05, 0x00, 0x00] \<and>
   stream_has [0xfa, 0x05, 0x00, 0x00] (new_Reader [0xfa, 0x05, 0x00, 0x00, 0x07]) \<and>
   fst (ReadLengthEncoded False (new_Reader [0xfa, 0x05, 0x00, 0x00, 0x07])) = 0x50000 \<and>
   m_offset (snd (ReadLengthEncoded False (new_Reader [0xfa, 0x05, 0x00, 0x00, 0x07]))) = 4"
proof -
  let ?r = "new_Reader [0xfa, 0x05, 0x00, 0x00, 0x07]"
  have w: "\<not> w_badStream (new_Writer True)" by (simp add: new_Writer_def)
  have e: "[0xfa, 0x05, 0x00, 0x00] = emitted (new_Writer True) (WriteLengthEncoded 0x50000 (new_Writer True))"
    by code_simp
  have h: "stream_has [0xfa, 0x05, 0x00, 0x00] ?r" by code_simp
  have nb: "\<not> m_badStream ?r" by code_simp
  have room: "m_end (m_context ?r) = 0 \<or>
      unat (m_offset ?r) + length [0xfa, 0x05, 0x00, 0x00 :: byte] \<le> unat (m_end (m_context ?r))"
    by code_simp
  have o: "m_offset ?r = 0" by (simp add: new_Reader_def)
  have "\<not> (0x50000 :: u64) < 0x7800" by simp
  then show ?thesis
    using length_encoding_roundtrip [OF w e h nb room, of False] w e [symmetric] h o by simp
qed

section \<open>Integer payloads\<close>


lemma high_bit_ff: "(0xff :: byte) AND 0x80 = 0x80"
  by simp


lemma skip_extended_sign_Nil [simp]: "skip_extended_sign xs = [] \<longleftrightarrow> xs = []"
  by (induction xs rule: skip_extended_sign.induct) auto



lemma high_bit_0: "(0 :: byte) AND 0x80 \<noteq> 0x80"
  by simp










lemma be_bytes_Nil [simp]: "be_bytes n v = [] \<longleftrightarrow> n = 0"
  by (cases n) simp_all












section \<open>Containers\<close>

lemma DecodeToken_left: "stream_left (snd (DecodeToken r)) \<le> stream_left r"
proof (induction r rule: DecodeToken.induct)
  case (1 r)
  show ?case
  proof (cases "ReadLengthEncoded_first r")
    case (Inl r')
    then show ?thesis
      by (simp add: DecodeToken.simps [of r] ReadLengthEncoded_first_left_Inl)
  next
    case (Inr p)
    obtain v r1 where p: "p = (v, r1)" by (cases p)
    have lt: "stream_left r1 < stream_left r"
      using Inr p by (simp add: ReadLengthEncoded_first_left)
    show ?thesis
    proof (cases "v = 0xf8")
      case True
      obtain n r2 where d: "DecodeLength r1 = (n, r2)" by (cases "DecodeLength r1")
      have "stream_left r2 \<le> stream_left r1" using DecodeLength_left [of r1] d by simp
      moreover have "stream_left (snd (DecodeToken (r2\<lparr>m_nextContainerElementCount := n\<rparr>)))
          \<le> stream_left (r2\<lparr>m_nextContainerElementCount := n\<rparr>)"
        using "1.IH" [OF Inr p [symmetric] True d [symmetric] refl] .
      ultimately show ?thesis using Inr p True d lt
        by (simp add: DecodeToken.simps [of r])
    next
      case False
      then show ?thesis
        using Inr p lt ReadLengthEncoded_rest_left [of v r1]
        by (simp add: DecodeToken.simps [of r])
    qed
  qed
qed

lemma ReadLengthEncoded_first_Inl_bad:
  "\<not> m_badStream r \<Longrightarrow> ReadLengthEncoded_first r = Inl r' \<Longrightarrow> m_badStream r'"
  by (auto simp add: ReadLengthEncoded_first_def VERIFIED_READ_def verify_failed_def Let_def
      split_beta split: if_splits list.splits)


lemma DecodeToken_progress:
  assumes "\<not> m_badStream r"
  shows "m_badStream (snd (DecodeToken r)) \<or> stream_left (snd (DecodeToken r)) < stream_left r"
proof (cases "ReadLengthEncoded_first r")
  case (Inl r')
  then show ?thesis
    using ReadLengthEncoded_first_Inl_bad [OF assms Inl] by (simp add: DecodeToken.simps [of r])
next
  case (Inr p)
  obtain v r1 where p: "p = (v, r1)" by (cases p)
  have lt: "stream_left r1 < stream_left r" using Inr p by (simp add: ReadLengthEncoded_first_left)
  obtain n r2 where d: "DecodeLength r1 = (n, r2)" by (cases "DecodeLength r1")
  have "stream_left r2 \<le> stream_left r1" using DecodeLength_left [of r1] d by simp
  moreover have "stream_left (snd (DecodeToken (r2\<lparr>m_nextContainerElementCount := n\<rparr>)))
      \<le> stream_left (r2\<lparr>m_nextContainerElementCount := n\<rparr>)"
    by (rule DecodeToken_left)
  ultimately show ?thesis
    using Inr p lt d ReadLengthEncoded_rest_left [of v r1]
    by (simp add: DecodeToken.simps [of r])
qed

















end
